theory Spec2Isabelle
  imports Main
begin

section \<open>The video generator of the e-book reader (video\_generator.py)\<close>

text \<open>
  The class \<open>VideoGenerator\<close> splits a chapter into scenes with a language model,
  renders one clip per scene on a ComfyUI server (a websocket for the job, an HTTP GET
  for the artifact) and stitches the clips with moviepy. The model below follows the
  source function by function. Everything outside the process (the language model,
  the render server, moviepy) is a field of the record \<open>env\<close>; everything the
  process changes (the Python heap holding the workflow dictionaries, the files, the
  messages that left the process) is a field of the record \<open>world\<close>.
\<close>

subsection \<open>Exceptions and outcomes\<close>

text \<open>
  A Python exception is identified by the name of its class. Only subclasses of
  \<open>Exception\<close> are modelled (\<open>except Exception\<close> catches every one of them).
  A call returns a value, raises, or never returns (the receive loop of
  \<open>_queue_comfyui_prompt\<close> has no exit but an "executed" message or an exception).
\<close>

datatype exn = Exn string

datatype 'a res = Val 'a | Raise exn | Blocked

subsection \<open>JSON values\<close>

text \<open>
  A parsed JSON document. The fields of an object are kept in document order;
  Python dictionaries keep insertion order too, and their keys are distinct.
  A float is kept by its literal: the source computes with none.
\<close>

datatype json =
    JNull
  | JBool bool
  | JInt int
  | JFloat string
  | JStr string
  | JArr "json list"
  | JObj "(string \<times> json) list"

text \<open>
  The Python operations the source applies to decoded messages. They are applied to
  values that come straight from \<open>json.loads\<close> and are never mutated nor shared,
  so these values are modelled without a heap.
\<close>

text \<open>\<open>xs[i]\<close> for an integer: a negative index counts from the end.\<close>

definition py_index :: "'a list \<Rightarrow> int \<Rightarrow> exn + 'a" where
  "py_index xs i =
     (if 0 \<le> i \<and> i < int (length xs) then Inr (xs ! nat i)
      else if i < 0 \<and> - i \<le> int (length xs) then Inr (xs ! nat (int (length xs) + i))
      else Inl (Exn ''IndexError''))"

fun py_getitem :: "json \<Rightarrow> json \<Rightarrow> exn + json" where
  "py_getitem (JObj kvs) (JArr k) = Inl (Exn ''TypeError'')"
| "py_getitem (JObj kvs) (JObj k) = Inl (Exn ''TypeError'')"
| "py_getitem (JObj kvs) (JStr k) =
     (case map_of kvs k of None \<Rightarrow> Inl (Exn ''KeyError'') | Some v \<Rightarrow> Inr v)"
| "py_getitem (JObj kvs) k = Inl (Exn ''KeyError'')"
| "py_getitem (JArr xs) (JInt i) = py_index xs i"
| "py_getitem (JArr xs) (JBool b) = py_index xs (if b then 1 else 0)"
| "py_getitem (JArr xs) k = Inl (Exn ''TypeError'')"
| "py_getitem (JStr s) (JInt i) = map_sum id (\<lambda>c. JStr [c]) (py_index s i)"
| "py_getitem (JStr s) (JBool b) =
     map_sum id (\<lambda>c. JStr [c]) (py_index s (if b then 1 else 0))"
| "py_getitem x k = Inl (Exn ''TypeError'')"

fun str_contains :: "string \<Rightarrow> string \<Rightarrow> bool" where
  "str_contains pat [] = (pat = [])"
| "str_contains pat (c # cs) = (take (length pat) (c # cs) = pat \<or> str_contains pat cs)"

text \<open>\<open>k in x\<close> for a string \<open>k\<close>.\<close>

fun py_contains :: "string \<Rightarrow> json \<Rightarrow> exn + bool" where
  "py_contains k (JObj kvs) = Inr (map_of kvs k \<noteq> None)"
| "py_contains k (JArr xs) = Inr (JStr k \<in> set xs)"
| "py_contains k (JStr s) = Inr (str_contains k s)"
| "py_contains k x = Inl (Exn ''TypeError'')"

text \<open>\<open>for e in x\<close>: the elements the loop visits.\<close>

fun py_iter :: "json \<Rightarrow> exn + json list" where
  "py_iter (JObj kvs) = Inr (map (\<lambda>(k, v). JStr k) kvs)"
| "py_iter (JArr xs) = Inr xs"
| "py_iter (JStr s) = Inr (map (\<lambda>c. JStr [c]) s)"
| "py_iter x = Inl (Exn ''TypeError'')"

text \<open>\<open>x.get(k, d)\<close>: only a dictionary has the method.\<close>

fun py_get :: "json \<Rightarrow> string \<Rightarrow> json \<Rightarrow> exn + json" where
  "py_get (JObj kvs) k d = Inr (case map_of kvs k of None \<Rightarrow> d | Some v \<Rightarrow> v)"
| "py_get x k d = Inl (Exn ''AttributeError'')"

subsection \<open>The Python heap\<close>

text \<open>
  The workflow template is a tree of dictionaries and lists that the source copies and
  then mutates in place, so these objects live in a heap: an object is a dictionary or
  a list whose entries are immediate values or references, an address is an index into
  the list of allocated objects, and allocation appends.
\<close>

datatype pyval =
    VNone
  | VBool bool
  | VInt int
  | VFloat string
  | VStr string
  | VRef nat

datatype pyobj =
    ODict "(string \<times> pyval) list"
  | OList "pyval list"

text \<open>\<open>json.loads\<close> (on the parsed document): every array and object is a new object.\<close>

fun loads :: "pyobj list \<Rightarrow> json \<Rightarrow> pyobj list \<times> pyval"
  and loads_list :: "pyobj list \<Rightarrow> json list \<Rightarrow> pyobj list \<times> pyval list"
  and loads_fields :: "pyobj list \<Rightarrow> (string \<times> json) list \<Rightarrow> pyobj list \<times> (string \<times> pyval) list"
where
  "loads h JNull = (h, VNone)"
| "loads h (JBool b) = (h, VBool b)"
| "loads h (JInt i) = (h, VInt i)"
| "loads h (JFloat f) = (h, VFloat f)"
| "loads h (JStr s) = (h, VStr s)"
| "loads h (JArr js) =
     (case loads_list h js of (h', vs) \<Rightarrow> (h' @ [OList vs], VRef (length h')))"
| "loads h (JObj kvs) =
     (case loads_fields h kvs of (h', fs) \<Rightarrow> (h' @ [ODict fs], VRef (length h')))"
| "loads_list h [] = (h, [])"
| "loads_list h (j # js) =
     (case loads h j of (h1, v) \<Rightarrow>
        case loads_list h1 js of (h2, vs) \<Rightarrow> (h2, v # vs))"
| "loads_fields h [] = (h, [])"
| "loads_fields h (kv # kvs) =
     (case loads h (snd kv) of (h1, v) \<Rightarrow>
        case loads_fields h1 kvs of (h2, fs) \<Rightarrow> (h2, (fst kv, v) # fs))"

text \<open>
  \<open>json.dumps\<close> reads the heap. The encoder raises \<open>ValueError\<close> on a circular
  reference; a path through more references than there are objects is circular, so the
  number of objects bounds the depth and \<open>None\<close> stands for that error.
\<close>

fun dumps_fuel :: "nat \<Rightarrow> pyobj list \<Rightarrow> pyval \<Rightarrow> json option"
  and dumps_list :: "nat \<Rightarrow> pyobj list \<Rightarrow> pyval list \<Rightarrow> json list option"
  and dumps_fields :: "nat \<Rightarrow> pyobj list \<Rightarrow> (string \<times> pyval) list \<Rightarrow> (string \<times> json) list option"
where
  "dumps_fuel n h VNone = Some JNull"
| "dumps_fuel n h (VBool b) = Some (JBool b)"
| "dumps_fuel n h (VInt i) = Some (JInt i)"
| "dumps_fuel n h (VFloat f) = Some (JFloat f)"
| "dumps_fuel n h (VStr s) = Some (JStr s)"
| "dumps_fuel 0 h (VRef a) = None"
| "dumps_fuel (Suc n) h (VRef a) =
     (if a < length h then
        (case h ! a of
           OList vs \<Rightarrow> map_option JArr (dumps_list n h vs)
         | ODict fs \<Rightarrow> map_option JObj (dumps_fields n h fs))
      else None)"
| "dumps_list n h [] = Some []"
| "dumps_list n h (v # vs) =
     (case dumps_fuel n h v of None \<Rightarrow> None
      | Some j \<Rightarrow> map_option ((#) j) (dumps_list n h vs))"
| "dumps_fields n h [] = Some []"
| "dumps_fields n h (kv # fs) =
     (case dumps_fuel n h (snd kv) of None \<Rightarrow> None
      | Some j \<Rightarrow> map_option ((#) (fst kv, j)) (dumps_fields n h fs))"

definition dumps :: "pyobj list \<Rightarrow> pyval \<Rightarrow> json option" where
  "dumps h v = dumps_fuel (length h) h v"


text \<open>The dictionary behind a value; a dangling address holds nothing.\<close>

definition heap_dict :: "pyobj list \<Rightarrow> pyval \<Rightarrow> (string \<times> pyval) list option" where
  "heap_dict h v =
     (case v of
        VRef a \<Rightarrow>
          (if a < length h then (case h ! a of ODict fs \<Rightarrow> Some fs | OList vs \<Rightarrow> None)
           else None)
      | _ \<Rightarrow> None)"

text \<open>\<open>d[k] = v\<close>: an existing key keeps its place, a new one goes last.\<close>

fun dict_set :: "(string \<times> 'v) list \<Rightarrow> string \<Rightarrow> 'v \<Rightarrow> (string \<times> 'v) list" where
  "dict_set [] k v = [(k, v)]"
| "dict_set (p # ps) k v = (if fst p = k then (k, v) # ps else p # dict_set ps k v)"

subsection \<open>The world and its environment\<close>

text \<open>
  The URL of the file view, \<open>http://{server}/view?subfolder={..}&filename={..}\<close>,
  is kept as the three values formatted into it.
\<close>

datatype view_url = ViewUrl string json json

text \<open>
  What leaves the process, in order. \<open>StitchCalled\<close> marks the entry of
  \<open>_stitch_clips_into_video\<close> with its arguments.
\<close>

datatype event =
    GenerateContent string
  | WsConnect string
  | WsSend json
  | WsClose
  | HttpGet view_url
  | StitchCalled "string list" string

text \<open>
  The file system is a tree: a location is the list of the names from the root down
  to it (the root is the empty list and always a directory). \<open>dirs\<close> holds the other
  directories, \<open>files\<close> the contents of the regular files, \<open>cwd\<close> the working
  directory of the process.
\<close>

record world =
  heap :: "pyobj list"
  cwd :: "string list"
  files :: "string list \<Rightarrow> string option"
  dirs :: "string list set"
  trace :: "event list"

text \<open>
  A websocket frame is text (decoded by \<open>json.loads\<close>, which may fail) or binary. The
  server's frames end when it closes the connection (\<open>recv\<close> raises) or when it
  stays silent for ever.
\<close>

datatype frame = TextFrame json | BadTextFrame | BinaryFrame

datatype ws_end = Closed exn | Silent

datatype ws_reply = SendFailed exn | Frames "frame list" ws_end

datatype ws_session = ConnectRefused exn | Accepted "json \<Rightarrow> ws_reply"

text \<open>
  The request of line 108 is made with \<open>stream=True\<close>: the body is read when
  \<open>content\<close> is used, in line 113, and that read may fail.
\<close>

record http_response =
  status_code :: int
  content :: "exn + string"

text \<open>
  What one call of \<open>write_videofile\<close> does: the exception it raises, if it raises,
  and the bytes it leaves at the output path, if it leaves any. The four cases are a
  written video, a failure with a partial file, a failure with no file, and a call that
  returns having written nothing.
\<close>

record write_result =
  wr_raised :: "exn option"
  wr_output :: "string option"

record scene =
  scene_description :: string
  visual_prompt :: string

text \<open>
  What the libraries and servers answer; each answer may depend on everything that
  left the process before. \<open>generate_content\<close> receives the chapter text, from which
  \<open>_create_prompt\<close> builds the prompt with fixed instructions and the schema.
\<close>

record env =
  generate_content :: "event list \<Rightarrow> string \<Rightarrow> exn + string"
  model_validate_json :: "string \<Rightarrow> exn + scene list"
  ws_server :: "event list \<Rightarrow> string \<Rightarrow> ws_session"
  requests_get :: "event list \<Rightarrow> view_url \<Rightarrow> exn + http_response"
  VideoFileClip :: "string \<Rightarrow> string option \<Rightarrow> exn + string"
  concatenate_videoclips :: "string list \<Rightarrow> exn + string"
  write_videofile :: "string \<Rightarrow> string \<Rightarrow> write_result"

record video_generator =
  server_address :: string
  client_id :: string
  base_workflow :: pyval

definition say :: "event \<Rightarrow> world \<Rightarrow> world" where
  "say e w = w\<lparr>trace := trace w @ [e]\<rparr>"

subsection \<open>Paths and files\<close>

text \<open>
  A \<open>Path\<close> object is kept as the string that \<open>str\<close> gives for it. pathlib (POSIX
  flavour) parses a string into a root and the names between the slashes, dropping
  empty names and \<open>.\<close> but keeping \<open>..\<close>; the root is \<open>//\<close> for exactly two
  leading slashes and \<open>/\<close> for any other number. A path with no root and no name is
  written \<open>.\<close>.
\<close>

fun split_slash :: "string \<Rightarrow> string list" where
  "split_slash [] = [[]]"
| "split_slash (c # cs) =
     (let r = split_slash cs in if c = CHR ''/'' then [] # r else (c # hd r) # tl r)"

definition path_root :: "string \<Rightarrow> string" where
  "path_root p =
     (if take 1 p \<noteq> ''/'' then []
      else if take 2 p = ''//'' \<and> take 3 p \<noteq> ''///'' then ''//''
      else ''/'')"

definition path_parts :: "string \<Rightarrow> string list" where
  "path_parts p = filter (\<lambda>c. c \<noteq> [] \<and> c \<noteq> ''.'') (split_slash p)"

fun join_slash :: "string list \<Rightarrow> string" where
  "join_slash [] = []"
| "join_slash [c] = c"
| "join_slash (c # d # ds) = c @ ''/'' @ join_slash (d # ds)"

definition render_path :: "string \<Rightarrow> string list \<Rightarrow> string" where
  "render_path root parts = (if root = [] \<and> parts = [] then ''.'' else root @ join_slash parts)"

text \<open>\<open>Path(a) / b\<close> for a string \<open>b\<close>: an absolute \<open>b\<close> replaces \<open>a\<close>.\<close>

definition path_join :: "string \<Rightarrow> string \<Rightarrow> string" where
  "path_join a b =
     (if path_root b \<noteq> [] then render_path (path_root b) (path_parts b)
      else render_path (path_root a) (path_parts a @ path_parts b))"

text \<open>
  How the operating system resolves a path: from the root or from the working
  directory, name by name. Before each name the place reached must be a directory
  (\<open>NotADirectoryError\<close> when a file is there, \<open>FileNotFoundError\<close> when nothing
  is); \<open>..\<close> goes to the parent, and the parent of the root is the root. The place
  reached by the last name may hold a file, a directory or nothing. Python refuses a
  path with a null character before any system call. The file system is assumed to
  have no symbolic links, and the process to be allowed every operation within the
  limits of the system (no \<open>PermissionError\<close>, no full disk, no name too long).
\<close>

definition is_dir :: "world \<Rightarrow> string list \<Rightarrow> bool" where
  "is_dir w d \<longleftrightarrow> d = [] \<or> d \<in> dirs w"

fun walk :: "world \<Rightarrow> string list \<Rightarrow> string list \<Rightarrow> exn + string list" where
  "walk w d [] = Inr d"
| "walk w d (c # cs) =
     (if is_dir w d then walk w (if c = ''..'' then butlast d else d @ [c]) cs
      else if files w d \<noteq> None then Inl (Exn ''NotADirectoryError'')
      else Inl (Exn ''FileNotFoundError''))"

definition locate :: "world \<Rightarrow> string \<Rightarrow> exn + string list" where
  "locate w p =
     (if CHR 0x00 \<in> set p then Inl (Exn ''ValueError'')
      else walk w (if path_root p = [] then cwd w else []) (path_parts p))"

text \<open>The content of the regular file a path names, if it names one.\<close>

definition file_at :: "world \<Rightarrow> string \<Rightarrow> string option" where
  "file_at w p =
     (case locate w p of
        Inl e \<Rightarrow> None
      | Inr d \<Rightarrow> if is_dir w d then None else files w d)"

text \<open>
  \<open>Path.mkdir(exist_ok=True)\<close>: an existing directory is accepted, an existing file
  is not, and the parent must exist (\<open>parents\<close> is not set).
\<close>

definition mkdir_exist_ok :: "string \<Rightarrow> world \<Rightarrow> exn + world" where
  "mkdir_exist_ok p w =
     (case locate w p of
        Inl e \<Rightarrow> Inl e
      | Inr d \<Rightarrow>
          if is_dir w d then Inr w
          else if files w d \<noteq> None then Inl (Exn ''FileExistsError'')
          else Inr (w\<lparr>dirs := insert d (dirs w)\<rparr>))"

text \<open>\<open>Path.write_bytes\<close>: the file is created or replaced; its directory must exist.\<close>

definition write_bytes :: "string \<Rightarrow> string \<Rightarrow> world \<Rightarrow> exn + world" where
  "write_bytes p b w =
     (case locate w p of
        Inl e \<Rightarrow> Inl e
      | Inr d \<Rightarrow>
          if is_dir w d then Inl (Exn ''IsADirectoryError'')
          else Inr (w\<lparr>files := (files w)(d \<mapsto> b)\<rparr>))"

text \<open>\<open>Path.unlink\<close>: the path must name a regular file.\<close>

definition unlink :: "string \<Rightarrow> world \<Rightarrow> exn + world" where
  "unlink p w =
     (case locate w p of
        Inl e \<Rightarrow> Inl e
      | Inr d \<Rightarrow>
          if is_dir w d then Inl (Exn ''IsADirectoryError'')
          else if files w d = None then Inl (Exn ''FileNotFoundError'')
          else Inr (w\<lparr>files := (files w)(d := None)\<rparr>))"

subsection \<open>The constructor\<close>

datatype workflow_file = NoFile | BadJson | Doc json

text \<open>\<open>__init__\<close>: lines 41--51. The generated uuid is the argument \<open>cid\<close>.\<close>

definition init ::
  "string \<Rightarrow> string \<Rightarrow> workflow_file \<Rightarrow> world \<Rightarrow> video_generator res \<times> world" where
  "init comfyui_address cid workflow w =
     (case workflow of
        NoFile \<Rightarrow> (Raise (Exn ''FileNotFoundError''), w)
      | BadJson \<Rightarrow> (Raise (Exn ''JSONDecodeError''), w)
      | Doc j \<Rightarrow>
          (case loads (heap w) j of
             (h, v) \<Rightarrow>
               (Val \<lparr>server_address = comfyui_address, client_id = cid, base_workflow = v\<rparr>,
                w\<lparr>heap := h\<rparr>)))"

subsection \<open>The scene planner\<close>

text \<open>
  \<open>split_chapter_into_scenes\<close>: lines 57--76. The \<open>try\<close> block holds the request and
  the validation; \<open>except Exception\<close> turns every failure into \<open>None\<close>.
\<close>

definition split_chapter_into_scenes ::
  "env \<Rightarrow> world \<Rightarrow> string \<Rightarrow> scene list option res \<times> world" where
  "split_chapter_into_scenes E w chapter_text =
     (let w1 = say (GenerateContent chapter_text) w in
      case generate_content E (trace w) chapter_text of
        Inl e \<Rightarrow> (Val None, w1)
      | Inr text \<Rightarrow>
          (case model_validate_json E text of
             Inl e \<Rightarrow> (Val None, w1)
           | Inr scenes \<Rightarrow> (Val (Some scenes), w1)))"

subsection \<open>The render job client\<close>

text \<open>
  The receive loop of \<open>_queue_comfyui_prompt\<close> (lines 85--91) up to the first
  message of type "executed": binary frames are skipped, a text frame is decoded and
  its \<open>type\<close> read.
\<close>

fun recv_loop :: "frame list \<Rightarrow> ws_end \<Rightarrow> json res" where
  "recv_loop [] (Closed e) = Raise e"
| "recv_loop [] Silent = Blocked"
| "recv_loop (BinaryFrame # fs) e = recv_loop fs e"
| "recv_loop (BadTextFrame # fs) e = Raise (Exn ''JSONDecodeError'')"
| "recv_loop (TextFrame m # fs) e =
     (case py_getitem m (JStr ''type'') of
        Inl x \<Rightarrow> Raise x
      | Inr t \<Rightarrow> if t = JStr ''executed'' then Val m else recv_loop fs e)"

text \<open>\<open>_queue_comfyui_prompt\<close>: lines 78--91.\<close>

definition queue_comfyui_prompt ::
  "env \<Rightarrow> video_generator \<Rightarrow> world \<Rightarrow> pyval \<Rightarrow> json res \<times> world" where
  "queue_comfyui_prompt E self w prompt_workflow =
     (let url = ''ws://'' @ server_address self @ ''/ws?clientId='' @ client_id self;
          w1 = say (WsConnect url) w in
      case ws_server E (trace w) url of
        ConnectRefused e \<Rightarrow> (Raise e, w1)
      | Accepted server \<Rightarrow>
          (case dumps (heap w1) prompt_workflow of
             None \<Rightarrow> (Raise (Exn ''ValueError''), w1)
           | Some j \<Rightarrow>
               (let msg = JObj [(''prompt'', j), (''client_id'', JStr (client_id self))];
                    w2 = say (WsSend msg) w1 in
                case server msg of
                  SendFailed e \<Rightarrow> (Raise e, w2)
                | Frames fs e \<Rightarrow>
                    (case recv_loop fs e of
                       Blocked \<Rightarrow> (Blocked, w2)
                     | Raise x \<Rightarrow> (Raise x, w2)
                     | Val message \<Rightarrow>
                         (let w3 = say WsClose w2 in
                          case py_getitem message (JStr ''data'') of
                            Inl x \<Rightarrow> (Raise x, w3)
                          | Inr d \<Rightarrow>
                              (case py_getitem d (JStr ''output'') of
                                 Inl x \<Rightarrow> (Raise x, w3)
                               | Inr out \<Rightarrow> (Val out, w3)))))))"

text \<open>
  The condition of the generator in line 96,
  \<open>n.get("_meta", {}).get("title") == prompt_node_title\<close>, for one node \<open>n\<close>.
\<close>

definition title_matches :: "pyobj list \<Rightarrow> pyval \<Rightarrow> string \<Rightarrow> exn + bool" where
  "title_matches h n title =
     (case heap_dict h n of
        None \<Rightarrow> Inl (Exn ''AttributeError'')
      | Some fs \<Rightarrow>
          (case map_of fs ''_meta'' of
             None \<Rightarrow> Inr False
           | Some m \<Rightarrow>
               (case heap_dict h m of
                  None \<Rightarrow> Inl (Exn ''AttributeError'')
                | Some ms \<Rightarrow> Inr (map_of ms ''title'' = Some (VStr title)))))"

text \<open>\<open>next((nid for nid, n in workflow.items() if ...), None)\<close>: the first match.\<close>

fun find_node :: "pyobj list \<Rightarrow> (string \<times> pyval) list \<Rightarrow> string \<Rightarrow> exn + string option" where
  "find_node h [] title = Inr None"
| "find_node h (item # items) title =
     (case title_matches h (snd item) title of
        Inl e \<Rightarrow> Inl e
      | Inr b \<Rightarrow> if b then Inr (Some (fst item)) else find_node h items title)"

text \<open>
  Line 101, \<open>workflow[target_node_id]["inputs"]["text"] = scene_prompt\<close>: two
  subscriptions and one item assignment, which updates the dictionary object in place.
\<close>

definition set_prompt ::
  "pyobj list \<Rightarrow> (string \<times> pyval) list \<Rightarrow> string \<Rightarrow> string \<Rightarrow> exn + pyobj list" where
  "set_prompt h nodes target_node_id scene_prompt =
     (case map_of nodes target_node_id of
        None \<Rightarrow> Inl (Exn ''KeyError'')
      | Some n \<Rightarrow>
          (case heap_dict h n of
             None \<Rightarrow> Inl (Exn ''TypeError'')
           | Some fs \<Rightarrow>
               (case map_of fs ''inputs'' of
                  None \<Rightarrow> Inl (Exn ''KeyError'')
                | Some i \<Rightarrow>
                    (case heap_dict h i of
                       None \<Rightarrow> Inl (Exn ''TypeError'')
                     | Some ifs \<Rightarrow>
                         (case i of
                            VRef a \<Rightarrow>
                              Inr (h[a := ODict (dict_set ifs ''text'' (VStr scene_prompt))])
                          | _ \<Rightarrow> Inl (Exn ''TypeError''))))))"

text \<open>
  The loop of lines 104--116 over the node ids of the outputs. A response whose status
  is not 200 writes nothing and the loop goes on; when no node yields a file the
  function returns \<open>None\<close>.
\<close>

fun scan_outputs ::
  "env \<Rightarrow> video_generator \<Rightarrow> world \<Rightarrow> json \<Rightarrow> json list \<Rightarrow> string option res \<times> world" where
  "scan_outputs E self w outputs [] = (Val None, w)"
| "scan_outputs E self w outputs (node_id # ids) =
     (case py_getitem outputs node_id of
        Inl x \<Rightarrow> (Raise x, w)
      | Inr node_out \<Rightarrow>
     (case py_contains ''videos'' node_out of
        Inl x \<Rightarrow> (Raise x, w)
      | Inr has_videos \<Rightarrow>
     if \<not> has_videos then scan_outputs E self w outputs ids
     else
     (case py_getitem node_out (JStr ''videos'') of
        Inl x \<Rightarrow> (Raise x, w)
      | Inr videos \<Rightarrow>
     (case py_getitem videos (JInt 0) of
        Inl x \<Rightarrow> (Raise x, w)
      | Inr video_data \<Rightarrow>
     (case py_get video_data ''subfolder'' (JStr []) of
        Inl x \<Rightarrow> (Raise x, w)
      | Inr subfolder \<Rightarrow>
     (case py_getitem video_data (JStr ''filename'') of
        Inl x \<Rightarrow> (Raise x, w)
      | Inr filename \<Rightarrow>
     (let url = ViewUrl (server_address self) subfolder filename;
          w1 = say (HttpGet url) w in
      case requests_get E (trace w) url of
        Inl x \<Rightarrow> (Raise x, w1)
      | Inr response \<Rightarrow>
     if status_code response = 200 then
       (case mkdir_exist_ok ''temp_clips'' w1 of
          Inl x \<Rightarrow> (Raise x, w1)
        | Inr w2 \<Rightarrow>
            (case filename of
               JStr f \<Rightarrow>
                 (let clip_path = path_join ''temp_clips'' f in
                  case content response of
                    Inl x \<Rightarrow> (Raise x, w2)
                  | Inr body \<Rightarrow>
                      (case write_bytes clip_path body w2 of
                         Inl x \<Rightarrow> (Raise x, w2)
                       | Inr w3 \<Rightarrow> (Val (Some clip_path), w3)))
             | _ \<Rightarrow> (Raise (Exn ''TypeError''), w2)))
     else scan_outputs E self w1 outputs ids)))))))"

text \<open>
  \<open>_generate_clip_for_scene\<close>: lines 93--116. The copy of the template is
  \<open>json.loads(json.dumps(self.base_workflow))\<close>; an id that is \<open>None\<close> or the
  empty string fails the test of line 98.
\<close>

definition generate_clip_for_scene ::
  "env \<Rightarrow> video_generator \<Rightarrow> world \<Rightarrow> string \<Rightarrow> string \<Rightarrow> string option res \<times> world" where
  "generate_clip_for_scene E self w scene_prompt prompt_node_title =
     (case dumps (heap w) (base_workflow self) of
        None \<Rightarrow> (Raise (Exn ''ValueError''), w)
      | Some template \<Rightarrow>
     (case loads (heap w) template of (h1, workflow) \<Rightarrow>
     (let w1 = w\<lparr>heap := h1\<rparr> in
      case heap_dict h1 workflow of
        None \<Rightarrow> (Raise (Exn ''AttributeError''), w1)
      | Some nodes \<Rightarrow>
     (case find_node h1 nodes prompt_node_title of
        Inl x \<Rightarrow> (Raise x, w1)
      | Inr target \<Rightarrow>
     (case target of
        None \<Rightarrow> (Raise (Exn ''ValueError''), w1)
      | Some target_node_id \<Rightarrow>
     if target_node_id = [] then (Raise (Exn ''ValueError''), w1)
     else
     (case set_prompt h1 nodes target_node_id scene_prompt of
        Inl x \<Rightarrow> (Raise x, w1)
      | Inr h2 \<Rightarrow>
     (let w2 = w1\<lparr>heap := h2\<rparr> in
      case queue_comfyui_prompt E self w2 workflow of
        (Blocked, w3) \<Rightarrow> (Blocked, w3)
      | (Raise x, w3) \<Rightarrow> (Raise x, w3)
      | (Val outputs, w3) \<Rightarrow>
          (case py_iter outputs of
             Inl x \<Rightarrow> (Raise x, w3)
           | Inr ids \<Rightarrow> scan_outputs E self w3 outputs ids))))))))"

subsection \<open>The media stitcher\<close>

text \<open>Line 121: the clips are opened in list order; the first failure raises.\<close>

fun open_clips :: "env \<Rightarrow> world \<Rightarrow> string list \<Rightarrow> exn + string list" where
  "open_clips E w [] = Inr []"
| "open_clips E w (p # ps) =
     (case VideoFileClip E p (file_at w p) of
        Inl x \<Rightarrow> Inl x
      | Inr c \<Rightarrow> (case open_clips E w ps of Inl x \<Rightarrow> Inl x | Inr cs \<Rightarrow> Inr (c # cs)))"

text \<open>
  Line 132, \<open>for p in clip_paths: p.unlink()\<close>: the first unlink that fails raises,
  and the files unlinked before it stay deleted.
\<close>

fun unlink_all :: "string list \<Rightarrow> world \<Rightarrow> unit res \<times> world" where
  "unlink_all [] w = (Val (), w)"
| "unlink_all (p # ps) w =
     (case unlink p w of
        Inl x \<Rightarrow> (Raise x, w)
      | Inr w1 \<Rightarrow> unlink_all ps w1)"

text \<open>
  What the encoder leaves on the disk: its output, when it has one and the path can
  be written.
\<close>

definition store_output :: "string \<Rightarrow> string option \<Rightarrow> world \<Rightarrow> world" where
  "store_output p out w =
     (case out of
        None \<Rightarrow> w
      | Some b \<Rightarrow> (case write_bytes p b w of Inl e \<Rightarrow> w | Inr w1 \<Rightarrow> w1))"

text \<open>
  Lines 120--130 of \<open>_stitch_clips_into_video\<close>: decoding, concatenation and
  encoding, everything before the clean-up. The function goes on to the clean-up
  whenever \<open>write_videofile\<close> returns; it does not look at the output file.
\<close>

definition encode_video :: "env \<Rightarrow> world \<Rightarrow> string list \<Rightarrow> string \<Rightarrow> string res \<times> world" where
  "encode_video E w clip_paths output_filename =
     (let w0 = say (StitchCalled clip_paths output_filename) w in
      case open_clips E w0 clip_paths of
        Inl x \<Rightarrow> (Raise x, w0)
      | Inr clips \<Rightarrow>
     (case concatenate_videoclips E clips of
        Inl x \<Rightarrow> (Raise x, w0)
      | Inr final_clip \<Rightarrow>
     (case mkdir_exist_ok ''final_videos'' w0 of
        Inl x \<Rightarrow> (Raise x, w0)
      | Inr w1 \<Rightarrow>
     (let final_path = path_join ''final_videos'' (output_filename @ ''.mp4'');
          written = write_videofile E final_clip final_path;
          w2 = store_output final_path (wr_output written) w1 in
      case wr_raised written of
        Some x \<Rightarrow> (Raise x, w2)
      | None \<Rightarrow> (Val final_path, w2)))))"

text \<open>\<open>_stitch_clips_into_video\<close>: lines 118--133.\<close>

definition stitch_clips_into_video ::
  "env \<Rightarrow> world \<Rightarrow> string list \<Rightarrow> string \<Rightarrow> string res \<times> world" where
  "stitch_clips_into_video E w clip_paths output_filename =
     (case encode_video E w clip_paths output_filename of
        (Blocked, w1) \<Rightarrow> (Blocked, w1)
      | (Raise x, w1) \<Rightarrow> (Raise x, w1)
      | (Val final_path, w1) \<Rightarrow>
          (case unlink_all clip_paths w1 of
             (Val u, w2) \<Rightarrow> (Val final_path, w2)
           | (Raise x, w2) \<Rightarrow> (Raise x, w2)
           | (Blocked, w2) \<Rightarrow> (Blocked, w2)))"

subsection \<open>The pipeline coordinator\<close>

text \<open>
  The loop of lines 140--145. There is no \<open>try\<close> around the call of
  \<open>_generate_clip_for_scene\<close>: an exception leaves the loop and the function.
\<close>

fun collect_clips ::
  "env \<Rightarrow> video_generator \<Rightarrow> world \<Rightarrow> scene list \<Rightarrow> string list \<Rightarrow> string list res \<times> world" where
  "collect_clips E self w [] clip_paths = (Val clip_paths, w)"
| "collect_clips E self w (scene # scenes) clip_paths =
     (case generate_clip_for_scene E self w (visual_prompt scene) ''Prompt_Input_Node'' of
        (Blocked, w1) \<Rightarrow> (Blocked, w1)
      | (Raise x, w1) \<Rightarrow> (Raise x, w1)
      | (Val clip_path, w1) \<Rightarrow>
          (case clip_path of
             None \<Rightarrow> collect_clips E self w1 scenes clip_paths
           | Some p \<Rightarrow> collect_clips E self w1 scenes (clip_paths @ [p])))"

text \<open>\<open>create_chapter_video\<close>: lines 135--151.\<close>

definition create_chapter_video ::
  "env \<Rightarrow> video_generator \<Rightarrow> world \<Rightarrow> string \<Rightarrow> string \<Rightarrow> string option res \<times> world" where
  "create_chapter_video E self w chapter_text output_filename =
     (case split_chapter_into_scenes E w chapter_text of
        (Blocked, w1) \<Rightarrow> (Blocked, w1)
      | (Raise x, w1) \<Rightarrow> (Raise x, w1)
      | (Val scenes_data, w1) \<Rightarrow>
     (case scenes_data of
        None \<Rightarrow> (Val None, w1)
      | Some scenes \<Rightarrow>
     if scenes = [] then (Val None, w1)
     else
     (case collect_clips E self w1 scenes [] of
        (Blocked, w2) \<Rightarrow> (Blocked, w2)
      | (Raise x, w2) \<Rightarrow> (Raise x, w2)
      | (Val clip_paths, w2) \<Rightarrow>
     if clip_paths = [] then (Val None, w2)
     else
     (case stitch_clips_into_video E w2 clip_paths output_filename of
        (Blocked, w3) \<Rightarrow> (Blocked, w3)
      | (Raise x, w3) \<Rightarrow> (Raise x, w3)
      | (Val final_path, w3) \<Rightarrow> (Val (Some final_path), w3)))))"

subsection \<open>Observations on a run\<close>

text \<open>The clip lists handed to the stitcher, the workflows sent to the render server.\<close>

fun stitch_calls :: "event list \<Rightarrow> string list list" where
  "stitch_calls [] = []"
| "stitch_calls (StitchCalled ps n # es) = ps # stitch_calls es"
| "stitch_calls (e # es) = stitch_calls es"

fun is_render_event :: "event \<Rightarrow> bool" where
  "is_render_event (GenerateContent t) = False"
| "is_render_event (StitchCalled ps n) = False"
| "is_render_event e = True"

text \<open>
  The outcome of each scene's render job in a run of the loop, in scene order, up to
  and with the first job that does not return.
\<close>

fun job_results :: "env \<Rightarrow> video_generator \<Rightarrow> world \<Rightarrow> scene list \<Rightarrow> string option res list" where
  "job_results E self w [] = []"
| "job_results E self w (scene # scenes) =
     (case generate_clip_for_scene E self w (visual_prompt scene) ''Prompt_Input_Node'' of
        (Val clip_path, w1) \<Rightarrow> Val clip_path # job_results E self w1 scenes
      | (r, w1) \<Rightarrow> [r])"

text \<open>The clips of the jobs that returned one, in order.\<close>

fun clips_of :: "string option res list \<Rightarrow> string list" where
  "clips_of [] = []"
| "clips_of (Val (Some p) # rs) = p # clips_of rs"
| "clips_of (r # rs) = clips_of rs"

fun returned :: "'a res \<Rightarrow> bool" where
  "returned (Val x) = True"
| "returned r = False"

text \<open>The exceptions raised by subscripting, \<open>in\<close> and \<open>.get\<close> on decoded values.\<close>

definition lookup_error :: "exn \<Rightarrow> bool" where
  "lookup_error e \<longleftrightarrow>
     e = Exn ''KeyError'' \<or> e = Exn ''TypeError'' \<or> e = Exn ''IndexError''
     \<or> e = Exn ''AttributeError''"

subsection \<open>The workflow as a JSON value\<close>

text \<open>
  What lines 96--101 do to the copy of the template, told on the JSON value of the
  template instead of the heap: the test of one node, the search for the first node
  with the title, and the document with the prompt written into that node's inputs.
  The properties below relate the heap operations of the source to these.
\<close>

fun template_title_matches :: "json \<Rightarrow> string \<Rightarrow> exn + bool" where
  "template_title_matches (JObj fs) title =
     (case map_of fs ''_meta'' of
        None \<Rightarrow> Inr False
      | Some (JObj ms) \<Rightarrow> Inr (map_of ms ''title'' = Some (JStr title))
      | Some m \<Rightarrow> Inl (Exn ''AttributeError''))"
| "template_title_matches n title = Inl (Exn ''AttributeError'')"

fun template_find_node :: "(string \<times> json) list \<Rightarrow> string \<Rightarrow> exn + string option" where
  "template_find_node [] title = Inr None"
| "template_find_node (item # items) title =
     (case template_title_matches (snd item) title of
        Inl e \<Rightarrow> Inl e
      | Inr b \<Rightarrow> if b then Inr (Some (fst item)) else template_find_node items title)"

definition template_set_prompt ::
  "(string \<times> json) list \<Rightarrow> string \<Rightarrow> string \<Rightarrow> exn + json" where
  "template_set_prompt nodes target_node_id scene_prompt =
     (case map_of nodes target_node_id of
        None \<Rightarrow> Inl (Exn ''KeyError'')
      | Some (JObj fs) \<Rightarrow>
          (case map_of fs ''inputs'' of
             None \<Rightarrow> Inl (Exn ''KeyError'')
           | Some (JObj ifs) \<Rightarrow>
               Inr (JObj (dict_set nodes target_node_id
                      (JObj (dict_set fs ''inputs''
                         (JObj (dict_set ifs ''text'' (JStr scene_prompt)))))))
           | Some i \<Rightarrow> Inl (Exn ''TypeError''))
      | Some n \<Rightarrow> Inl (Exn ''TypeError''))"

text \<open>
  The workflow a scene submits, as a function of the template, the title of the input
  node and the scene's prompt alone; an exception when lines 96--101 raise.
\<close>

definition workflow_for :: "json \<Rightarrow> string \<Rightarrow> string \<Rightarrow> exn + json" where
  "workflow_for template title scene_prompt =
     (case template of
        JObj nodes \<Rightarrow>
          (case template_find_node nodes title of
             Inl e \<Rightarrow> Inl e
           | Inr None \<Rightarrow> Inl (Exn ''ValueError'')
           | Inr (Some target_node_id) \<Rightarrow>
               if target_node_id = [] then Inl (Exn ''ValueError'')
               else template_set_prompt nodes target_node_id scene_prompt)
      | _ \<Rightarrow> Inl (Exn ''AttributeError''))"

text \<open>The messages sent over the websocket, in order.\<close>

fun sent_messages :: "event list \<Rightarrow> json list" where
  "sent_messages [] = []"
| "sent_messages (WsSend m # es) = m # sent_messages es"
| "sent_messages (e # es) = sent_messages es"

text \<open>
  Two heaps hold the same objects at the addresses from \<open>lo\<close> up to \<open>hi\<close>, all of
  them allocated in the first.
\<close>

definition agrees :: "nat \<Rightarrow> nat \<Rightarrow> pyobj list \<Rightarrow> pyobj list \<Rightarrow> bool" where
  "agrees lo hi g h \<longleftrightarrow> hi \<le> length g \<and> (\<forall>a. lo \<le> a \<and> a < hi \<longrightarrow> g ! a = h ! a)"

text \<open>The message of line 82 for a workflow.\<close>

definition job_message :: "video_generator \<Rightarrow> json \<Rightarrow> json" where
  "job_message self j = JObj [(''prompt'', j), (''client_id'', JStr (client_id self))]"

subsection \<open>An example installation\<close>

text \<open>
  A template with two nodes, the second titled \<open>Prompt_Input_Node\<close>; a render server
  that names the clip after the prompt it finds in the submitted workflow; a file view
  that answers 500 for \<open>b.mp4\<close> and breaks the connection for \<open>x.mp4\<close>; a planner
  that makes one scene of every character of the chapter text; an encoder that fails
  half-way for the output \<open>broken\<close> and returns without a file for \<open>silent\<close>. The
  process runs in the directory \<open>/srv/app\<close>.
\<close>

definition demo_template :: json where
  "demo_template =
     JObj [(''3'', JObj [(''inputs'', JObj [(''seed'', JInt 7)]),
                         (''_meta'', JObj [(''title'', JStr ''Sampler'')])]),
           (''6'', JObj [(''inputs'', JObj [(''text'', JStr []), (''clip'', JArr [JStr ''4'', JInt 1])]),
                         (''_meta'', JObj [(''title'', JStr ''Prompt_Input_Node'')])])]"

definition demo_prompt_of :: "json \<Rightarrow> string" where
  "demo_prompt_of msg =
     (case py_getitem msg (JStr ''prompt'') of
        Inr wfl \<Rightarrow>
          (case py_getitem wfl (JStr ''6'') of
             Inr n \<Rightarrow>
               (case py_getitem n (JStr ''inputs'') of
                  Inr i \<Rightarrow> (case py_getitem i (JStr ''text'') of Inr (JStr s) \<Rightarrow> s | _ \<Rightarrow> [])
                | _ \<Rightarrow> [])
           | _ \<Rightarrow> [])
      | _ \<Rightarrow> [])"

definition demo_reply :: "json \<Rightarrow> ws_reply" where
  "demo_reply msg =
     Frames
       [BinaryFrame,
        TextFrame (JObj [(''type'', JStr ''progress'')]),
        TextFrame (JObj [(''type'', JStr ''executed''),
          (''data'', JObj [(''output'',
             JObj [(''8'', JObj [(''images'', JArr [])]),
                   (''9'', JObj [(''videos'',
                      JArr [JObj [(''filename'', JStr (demo_prompt_of msg @ ''.mp4'')),
                                  (''subfolder'', JStr ''out'')]])])])])])]
       (Closed (Exn ''WebSocketConnectionClosedException''))"

fun demo_get :: "event list \<Rightarrow> view_url \<Rightarrow> exn + http_response" where
  "demo_get tr (ViewUrl a sub name) =
     (if name = JStr ''x.mp4'' then Inl (Exn ''ConnectionError'')
      else if name = JStr ''b.mp4'' then Inr \<lparr>status_code = 500, content = Inr []\<rparr>
      else Inr \<lparr>status_code = 200, content = Inr ''video''\<rparr>)"

definition demo_env :: env where
  "demo_env =
     \<lparr>generate_content = (\<lambda>tr t. if t = ''?'' then Inl (Exn ''ServiceUnavailable'') else Inr t),
      model_validate_json =
        (\<lambda>t. if t = ''{'' then Inl (Exn ''ValidationError'')
             else Inr (map (\<lambda>c. \<lparr>scene_description = [c], visual_prompt = [c]\<rparr>) t)),
      ws_server = (\<lambda>tr url. Accepted demo_reply),
      requests_get = demo_get,
      VideoFileClip = (\<lambda>p b. case b of None \<Rightarrow> Inl (Exn ''OSError'') | Some c \<Rightarrow> Inr c),
      concatenate_videoclips = (\<lambda>cs. if cs = [] then Inl (Exn ''ValueError'') else Inr (concat cs)),
      write_videofile =
        (\<lambda>c p. if p = ''final_videos/broken.mp4''
               then \<lparr>wr_raised = Some (Exn ''OSError''), wr_output = Some ''vi''\<rparr>
               else if p = ''final_videos/silent.mp4''
               then \<lparr>wr_raised = None, wr_output = None\<rparr>
               else \<lparr>wr_raised = None, wr_output = Some c\<rparr>)\<rparr>"

definition demo_self :: video_generator where
  "demo_self =
     \<lparr>server_address = ''127.0.0.1:8188'', client_id = ''c1'',
      base_workflow = snd (loads [] demo_template)\<rparr>"

definition demo_world :: world where
  "demo_world =
     \<lparr>heap = fst (loads [] demo_template), cwd = [''srv'', ''app''],
      files = (\<lambda>d. None), dirs = {[''srv''], [''srv'', ''app'']}, trace = []\<rparr>"

text \<open>The example world with the clips of two scenes on disk.\<close>

definition demo_clips_world :: world where
  "demo_clips_world =
     demo_world
       \<lparr>files :=
          (\<lambda>d. if d = [''srv'', ''app'', ''temp_clips'', ''a.mp4'']
                  \<or> d = [''srv'', ''app'', ''temp_clips'', ''c.mp4'']
               then Some ''video'' else None),
        dirs := {[''srv''], [''srv'', ''app''], [''srv'', ''app'', ''temp_clips'']}\<rparr>"

text \<open>The example installation with a file view that answers every request with 500.\<close>

definition demo_env_down :: env where
  "demo_env_down =
     demo_env\<lparr>requests_get := (\<lambda>tr url. Inr \<lparr>status_code = 500, content = Inr []\<rparr>)\<rparr>"


text \<open>
  An output manifest with two video nodes: the file view answers 500 for the first
  and 200 for the second.
\<close>

definition demo_manifest :: json where
  "demo_manifest =
     JObj [(''8'', JObj [(''videos'', JArr [JObj [(''filename'', JStr ''b.mp4'')]])]),
           (''9'', JObj [(''videos'', JArr [JObj [(''filename'', JStr ''a.mp4''),
                                                 (''subfolder'', JStr ''out'')]])])]"

text \<open>An installation whose template has no node titled \<open>Prompt_Input_Node\<close>.\<close>

definition demo_plain_template :: json where
  "demo_plain_template =
     JObj [(''3'', JObj [(''inputs'', JObj [(''seed'', JInt 7)]),
                         (''_meta'', JObj [(''title'', JStr ''Sampler'')])]),
           (''4'', JObj [(''inputs'', JObj [(''ckpt_name'', JStr ''model'')])])]"

definition demo_plain_self :: video_generator where
  "demo_plain_self =
     \<lparr>server_address = ''127.0.0.1:8188'', client_id = ''c1'',
      base_workflow = snd (loads [] demo_plain_template)\<rparr>"

definition demo_plain_world :: world where
  "demo_plain_world =
     \<lparr>heap = fst (loads [] demo_plain_template), cwd = [''srv'', ''app''],
      files = (\<lambda>d. None), dirs = {[''srv''], [''srv'', ''app'']}, trace = []\<rparr>"

section \<open>Properties\<close>

subsection \<open>What a run adds to the trace\<close>

lemma stitch_calls_append: "stitch_calls (xs @ ys) = stitch_calls xs @ stitch_calls ys"
  by (induction xs rule: stitch_calls.induct) auto

lemma stitch_calls_say:
  "stitch_calls (trace (say e w)) = stitch_calls (trace w) @ stitch_calls [e]"
  by (simp add: say_def stitch_calls_append)

lemma trace_mkdir: "mkdir_exist_ok p w = Inr w' \<Longrightarrow> trace w' = trace w"
  by (auto simp: mkdir_exist_ok_def split: sum.splits if_splits)

lemma trace_write_bytes: "write_bytes p b w = Inr w' \<Longrightarrow> trace w' = trace w"
  by (auto simp: write_bytes_def split: sum.splits if_splits)

lemma trace_unlink: "unlink p w = Inr w' \<Longrightarrow> trace w' = trace w"
  by (auto simp: unlink_def split: sum.splits if_splits)

lemma trace_store_output: "trace (store_output p out w) = trace w"
  by (auto simp: store_output_def split: option.splits sum.splits dest: trace_write_bytes)

lemma scan_outputs_stitch:
  "scan_outputs E self w outputs ids = (r, w') \<Longrightarrow> stitch_calls (trace w') = stitch_calls (trace w)"
proof (induction ids arbitrary: w)
  case Nil
  then show ?case by simp
next
  case (Cons node_id ids)
  from Cons.prems show ?case
    by (auto simp: Let_def stitch_calls_say split: sum.splits if_splits json.splits
        dest!: Cons.IH trace_mkdir trace_write_bytes)
qed

lemma queue_stitch:
  "queue_comfyui_prompt E self w v = (r, w') \<Longrightarrow> stitch_calls (trace w') = stitch_calls (trace w)"
  by (auto simp: queue_comfyui_prompt_def Let_def stitch_calls_say
      split: ws_session.splits option.splits ws_reply.splits res.splits sum.splits)

lemma generate_stitch:
  "generate_clip_for_scene E self w p t = (r, w') \<Longrightarrow> stitch_calls (trace w') = stitch_calls (trace w)"
  by (auto simp: generate_clip_for_scene_def Let_def
      split: option.splits prod.splits sum.splits if_splits res.splits
      dest!: queue_stitch scan_outputs_stitch)

lemma clips_of_append: "clips_of (xs @ ys) = clips_of xs @ clips_of ys"
  by (induction xs rule: clips_of.induct) auto

lemma collect_clips_stitch:
  "collect_clips E self w scenes acc = (r, w') \<Longrightarrow> stitch_calls (trace w') = stitch_calls (trace w)"
proof (induction scenes arbitrary: w acc)
  case Nil
  then show ?case by simp
next
  case (Cons s scenes)
  obtain r1 w1 where g: "generate_clip_for_scene E self w (visual_prompt s) ''Prompt_Input_Node'' = (r1, w1)"
    by (cases "generate_clip_for_scene E self w (visual_prompt s) ''Prompt_Input_Node''")
  from Cons.prems g generate_stitch[OF g] show ?case
    by (auto split: res.splits option.splits dest!: Cons.IH)
qed

lemma collect_clips_returned:
  "list_all returned (job_results E self w scenes) \<Longrightarrow>
   fst (collect_clips E self w scenes acc) = Val (acc @ clips_of (job_results E self w scenes))"
proof (induction scenes arbitrary: w acc)
  case Nil
  then show ?case by simp
next
  case (Cons s scenes)
  obtain r1 w1 where g: "generate_clip_for_scene E self w (visual_prompt s) ''Prompt_Input_Node'' = (r1, w1)"
    by (cases "generate_clip_for_scene E self w (visual_prompt s) ''Prompt_Input_Node''")
  from Cons.prems g show ?case
    by (cases r1) (auto split: option.splits simp: Cons.IH)
qed

lemma collect_clips_raise:
  "Raise x \<in> set (job_results E self w scenes) \<Longrightarrow>
   fst (collect_clips E self w scenes acc) = Raise x"
proof (induction scenes arbitrary: w acc)
  case Nil
  then show ?case by simp
next
  case (Cons s scenes)
  obtain r1 w1 where g: "generate_clip_for_scene E self w (visual_prompt s) ''Prompt_Input_Node'' = (r1, w1)"
    by (cases "generate_clip_for_scene E self w (visual_prompt s) ''Prompt_Input_Node''")
  from Cons.prems g show ?case
    by (cases r1) (auto split: option.splits simp: Cons.IH)
qed

lemma collect_clips_blocked:
  "Blocked \<in> set (job_results E self w scenes) \<Longrightarrow>
   fst (collect_clips E self w scenes acc) = Blocked"
proof (induction scenes arbitrary: w acc)
  case Nil
  then show ?case by simp
next
  case (Cons s scenes)
  obtain r1 w1 where g: "generate_clip_for_scene E self w (visual_prompt s) ''Prompt_Input_Node'' = (r1, w1)"
    by (cases "generate_clip_for_scene E self w (visual_prompt s) ''Prompt_Input_Node''")
  from Cons.prems g show ?case
    by (cases r1) (auto split: option.splits simp: Cons.IH)
qed

lemma not_returned_cases:
  "\<not> list_all returned rs \<Longrightarrow> Blocked \<in> set rs \<or> (\<exists>x. Raise x \<in> set rs)"
  by (induction rs) (auto elim: returned.elims)

lemma job_results_length: "length (job_results E self w scenes) \<le> length scenes"
proof (induction scenes arbitrary: w)
  case Nil
  then show ?case by simp
next
  case (Cons s scenes)
  then show ?case by (auto split: prod.splits res.splits)
qed


lemma trace_unlink_all: "unlink_all ps w = (r, w') \<Longrightarrow> trace w' = trace w"
proof (induction ps arbitrary: w)
  case Nil
  then show ?case by simp
next
  case (Cons p ps)
  show ?case
  proof (cases "unlink p w")
    case (Inl x)
    with Cons.prems show ?thesis by simp
  next
    case (Inr w1)
    with Cons.prems Cons.IH[of w1] trace_unlink[OF Inr] show ?thesis by simp
  qed
qed

lemma trace_encode_video:
  "trace (snd (encode_video E w ps n)) = trace w @ [StitchCalled ps n]"
  by (auto simp: encode_video_def Let_def say_def trace_store_output
      split: sum.splits option.splits dest: trace_mkdir)

lemma trace_stitch:
  "trace (snd (stitch_clips_into_video E w ps n)) = trace w @ [StitchCalled ps n]"
proof -
  obtain r1 w1 where e: "encode_video E w ps n = (r1, w1)"
    by (cases "encode_video E w ps n")
  obtain r2 w2 where u: "unlink_all ps w1 = (r2, w2)"
    by (cases "unlink_all ps w1")
  from trace_encode_video[of E w ps n] e have "trace w1 = trace w @ [StitchCalled ps n]"
    by simp
  with e u trace_unlink_all[OF u] show ?thesis
    by (auto simp: stitch_clips_into_video_def split: res.splits)
qed

lemma split_world:
  "snd (split_chapter_into_scenes E w t) = say (GenerateContent t) w"
  by (simp add: split_chapter_into_scenes_def Let_def split: sum.splits)

lemma split_returns: "\<exists>d. fst (split_chapter_into_scenes E w t) = Val d"
  by (simp add: split_chapter_into_scenes_def Let_def split: sum.splits)

lemma create_stitch_calls:
  assumes "fst (split_chapter_into_scenes E w t) = Val (Some scenes)"
  shows "stitch_calls (trace (snd (create_chapter_video E self w t n))) =
         stitch_calls (trace w) @
         (let rs = job_results E self (snd (split_chapter_into_scenes E w t)) scenes in
          if list_all returned rs \<and> clips_of rs \<noteq> [] then [clips_of rs] else [])"
proof -
  let ?w1 = "say (GenerateContent t) w"
  let ?rs = "job_results E self ?w1 scenes"
  have sp: "split_chapter_into_scenes E w t = (Val (Some scenes), ?w1)"
    using assms split_world[of E w t] by (simp add: prod_eq_iff)
  have t1: "stitch_calls (trace ?w1) = stitch_calls (trace w)"
    by (simp add: stitch_calls_say)
  obtain r w2 where c: "collect_clips E self ?w1 scenes [] = (r, w2)"
    by (cases "collect_clips E self ?w1 scenes []")
  have t2: "stitch_calls (trace w2) = stitch_calls (trace w)"
    using collect_clips_stitch[OF c] t1 by simp
  show ?thesis
  proof (cases "list_all returned ?rs")
    case True
    then have r: "r = Val (clips_of ?rs)"
      using collect_clips_returned[of E self ?w1 scenes "[]"] c by simp
    show ?thesis
    proof (cases "clips_of ?rs = []")
      case True
      with r c sp t1 t2 \<open>list_all returned ?rs\<close> show ?thesis
        by (simp add: create_chapter_video_def split_world)
    next
      case False
      then have ne: "scenes \<noteq> []" by auto
      obtain r3 w3 where s: "stitch_clips_into_video E w2 (clips_of ?rs) n = (r3, w3)"
        by (cases "stitch_clips_into_video E w2 (clips_of ?rs) n")
      from trace_stitch[of E w2 "clips_of ?rs" n] s
      have "stitch_calls (trace w3) = stitch_calls (trace w) @ [clips_of ?rs]"
        by (simp add: stitch_calls_append t2)
      with False r c sp s ne \<open>list_all returned ?rs\<close> show ?thesis
        by (auto simp: create_chapter_video_def split_world split: res.splits)
    qed
  next
    case False
    then have ne: "scenes \<noteq> []" by auto
    from False have "Blocked \<in> set ?rs \<or> (\<exists>x. Raise x \<in> set ?rs)"
      by (rule not_returned_cases)
    then have "r = Blocked \<or> (\<exists>x. r = Raise x)"
      using collect_clips_raise[of _ E self ?w1 scenes "[]"]
        collect_clips_blocked[of E self ?w1 scenes "[]"] c by auto
    with False c sp t1 t2 ne show ?thesis
      by (auto simp: create_chapter_video_def split_world)
  qed
qed





subsection \<open>Files\<close>

text \<open>
  Which place a path leads to depends on the directories only; a world with more
  directories resolves every path that was resolved before to the same place.
\<close>

lemma walk_more_dirs:
  "walk w d cs = Inr t \<Longrightarrow> dirs w \<subseteq> dirs w1 \<Longrightarrow> walk w1 d cs = Inr t"
  by (induction cs arbitrary: d) (auto simp: is_dir_def split: if_splits)

lemma walk_same_disk:
  "dirs w1 = dirs w \<Longrightarrow> files w1 = files w \<Longrightarrow> walk w1 d cs = walk w d cs"
  by (induction cs arbitrary: d) (auto simp: is_dir_def)

lemma file_at_say: "file_at (say e w) q = file_at w q"
proof -
  have "walk (say e w) d cs = walk w d cs" for d cs
    by (rule walk_same_disk) (simp_all add: say_def)
  then show ?thesis
    by (auto simp: file_at_def locate_def is_dir_def say_def split: sum.splits)
qed

lemma locate_more_dirs:
  "locate w p = Inr t \<Longrightarrow> dirs w \<subseteq> dirs w1 \<Longrightarrow> cwd w1 = cwd w \<Longrightarrow> locate w1 p = Inr t"
  by (auto simp: locate_def split: if_splits intro: walk_more_dirs)

lemma locate_same_dirs:
  "dirs w1 = dirs w \<Longrightarrow> cwd w1 = cwd w \<Longrightarrow> locate w1 p = Inr t \<longleftrightarrow> locate w p = Inr t"
  using locate_more_dirs[of w p t w1] locate_more_dirs[of w1 p t w] by auto

lemma file_at_Some:
  "file_at w q = Some c \<longleftrightarrow> (\<exists>t. locate w q = Inr t \<and> \<not> is_dir w t \<and> files w t = Some c)"
  by (auto simp: file_at_def split: sum.splits)

lemma file_at_None:
  "file_at w q = None \<longleftrightarrow> (\<forall>t. locate w q = Inr t \<longrightarrow> is_dir w t \<or> files w t = None)"
  by (auto simp: file_at_def split: sum.splits)

lemma unlink_world:
  "unlink p w = Inr w1 \<Longrightarrow>
   \<exists>d. locate w p = Inr d \<and> \<not> is_dir w d \<and> w1 = w\<lparr>files := (files w)(d := None)\<rparr>"
  by (auto simp: unlink_def split: sum.splits if_splits)

lemma unlink_removes: "unlink p w = Inr w1 \<Longrightarrow> file_at w1 p = None"
proof -
  assume "unlink p w = Inr w1"
  then obtain d where d: "locate w p = Inr d" "w1 = w\<lparr>files := (files w)(d := None)\<rparr>"
    using unlink_world by blast
  have "locate w1 p = Inr t \<longleftrightarrow> locate w p = Inr t" for t
    by (rule locate_same_dirs) (simp_all add: d(2))
  with d show ?thesis
    by (auto simp: file_at_None)
qed

lemma unlink_keeps_missing:
  "unlink p w = Inr w1 \<Longrightarrow> file_at w q = None \<Longrightarrow> file_at w1 q = None"
proof -
  assume u: "unlink p w = Inr w1" and m: "file_at w q = None"
  from u obtain d where d: "w1 = w\<lparr>files := (files w)(d := None)\<rparr>"
    using unlink_world by blast
  have "locate w1 q = Inr t \<longleftrightarrow> locate w q = Inr t" for t
    by (rule locate_same_dirs) (simp_all add: d)
  with m d show ?thesis
    by (auto simp: file_at_None is_dir_def)
qed

lemma unlink_all_keeps_missing:
  "unlink_all ps w = (r, w') \<Longrightarrow> file_at w q = None \<Longrightarrow> file_at w' q = None"
proof (induction ps arbitrary: w)
  case Nil
  then show ?case by simp
next
  case (Cons p ps)
  show ?case
  proof (cases "unlink p w")
    case (Inl x)
    with Cons.prems show ?thesis by simp
  next
    case (Inr w1)
    with Cons.prems Cons.IH[of w1] unlink_keeps_missing[OF Inr, of q] show ?thesis by simp
  qed
qed

lemma unlink_all_removes:
  "unlink_all ps w = (Val u, w') \<Longrightarrow> q \<in> set ps \<Longrightarrow> file_at w' q = None"
proof (induction ps arbitrary: w)
  case Nil
  then show ?case by simp
next
  case (Cons p ps)
  from Cons.prems(1) obtain w1 where one: "unlink p w = Inr w1"
    and rest: "unlink_all ps w1 = (Val u, w')"
    by (auto split: sum.splits)
  show ?case
  proof (cases "q = p")
    case True
    with unlink_all_keeps_missing[OF rest, of p] unlink_removes[OF one] show ?thesis by simp
  next
    case False
    with Cons.prems(2) Cons.IH[OF rest] show ?thesis by simp
  qed
qed

lemma unlink_all_raise:
  "unlink_all ps w = (Raise x, w') \<Longrightarrow>
   \<exists>as q bs. ps = as @ q # bs \<and> unlink_all as w = (Val (), w') \<and> unlink q w' = Inl x"
proof (induction ps arbitrary: w)
  case Nil
  then show ?case by simp
next
  case (Cons p ps)
  show ?case
  proof (cases "unlink p w")
    case (Inl e)
    with Cons.prems have "p # ps = [] @ p # ps \<and> unlink_all [] w = (Val (), w') \<and> unlink p w' = Inl x"
      by simp
    then show ?thesis by blast
  next
    case (Inr w1)
    with Cons.prems have "unlink_all ps w1 = (Raise x, w')" by simp
    from Cons.IH[OF this] obtain as q bs where
      "ps = as @ q # bs" "unlink_all as w1 = (Val (), w')" "unlink q w' = Inl x"
      by blast
    with Inr have "p # ps = (p # as) @ q # bs \<and> unlink_all (p # as) w = (Val (), w')
        \<and> unlink q w' = Inl x"
      by simp
    then show ?thesis by blast
  qed
qed

lemma mkdir_world:
  "mkdir_exist_ok p w = Inr w1 \<Longrightarrow>
   w1 = w \<or> (\<exists>d. \<not> is_dir w d \<and> files w d = None \<and> w1 = w\<lparr>dirs := insert d (dirs w)\<rparr>)"
  by (auto simp: mkdir_exist_ok_def split: sum.splits if_splits)

lemma mkdir_keeps_files:
  assumes "mkdir_exist_ok p w = Inr w1" and "file_at w q = Some c"
  shows "file_at w1 q = Some c"
proof -
  from assms(2) obtain t where t: "locate w q = Inr t" "\<not> is_dir w t" "files w t = Some c"
    by (auto simp: file_at_Some)
  from mkdir_world[OF assms(1)] show ?thesis
  proof
    assume "w1 = w"
    with assms(2) show ?thesis by simp
  next
    assume "\<exists>d. \<not> is_dir w d \<and> files w d = None \<and> w1 = w\<lparr>dirs := insert d (dirs w)\<rparr>"
    then obtain d where d: "files w d = None" "w1 = w\<lparr>dirs := insert d (dirs w)\<rparr>"
      by blast
    have "locate w1 q = Inr t"
      by (rule locate_more_dirs[OF t(1)]) (auto simp: d(2))
    moreover from t d have "\<not> is_dir w1 t" "files w1 t = Some c"
      by (auto simp: is_dir_def)
    ultimately show ?thesis
      by (auto simp: file_at_Some)
  qed
qed

lemma store_output_world:
  "store_output p out w = w \<or>
   (\<exists>d b. locate w p = Inr d \<and> \<not> is_dir w d \<and> store_output p out w = w\<lparr>files := (files w)(d \<mapsto> b)\<rparr>)"
  by (auto simp: store_output_def write_bytes_def split: option.splits sum.splits if_splits)

lemma store_output_keeps_files:
  assumes "file_at w q = Some c"
  shows "file_at (store_output p out w) q \<noteq> None"
proof -
  from assms obtain t where t: "locate w q = Inr t" "\<not> is_dir w t" "files w t = Some c"
    by (auto simp: file_at_Some)
  from store_output_world[of p out w] show ?thesis
  proof
    assume "store_output p out w = w"
    with assms show ?thesis by simp
  next
    assume "\<exists>d b. locate w p = Inr d \<and> \<not> is_dir w d
              \<and> store_output p out w = w\<lparr>files := (files w)(d \<mapsto> b)\<rparr>"
    then obtain d b where d: "store_output p out w = w\<lparr>files := (files w)(d \<mapsto> b)\<rparr>"
      by blast
    have "locate (store_output p out w) q = Inr t"
      by (rule locate_more_dirs[OF t(1)]) (auto simp: d)
    moreover from t d have "\<not> is_dir (store_output p out w) t"
      "files (store_output p out w) t \<noteq> None"
      by (auto simp: is_dir_def)
    ultimately show ?thesis
      by (auto simp: file_at_def)
  qed
qed

lemma store_output_touches:
  "files (store_output p out w) t \<noteq> files w t \<Longrightarrow> locate (store_output p out w) p = Inr t"
proof -
  assume ch: "files (store_output p out w) t \<noteq> files w t"
  from store_output_world[of p out w] show ?thesis
  proof
    assume "store_output p out w = w"
    with ch show ?thesis by simp
  next
    assume "\<exists>d b. locate w p = Inr d \<and> \<not> is_dir w d
              \<and> store_output p out w = w\<lparr>files := (files w)(d \<mapsto> b)\<rparr>"
    then obtain d b where d: "locate w p = Inr d"
      "store_output p out w = w\<lparr>files := (files w)(d \<mapsto> b)\<rparr>"
      by blast
    from ch d(2) have "t = d"
      by (auto split: if_splits)
    moreover have "locate (store_output p out w) p = Inr d"
      by (rule locate_more_dirs[OF d(1)]) (auto simp: d(2))
    ultimately show ?thesis by simp
  qed
qed

text \<open>
  Lines 120--130 delete nothing, and change no file but the one the output path leads to.
\<close>

lemma encode_video_files:
  assumes "encode_video E w ps n = (r, w1)"
  shows "(file_at w q \<noteq> None \<longrightarrow> file_at w1 q \<noteq> None)
   \<and> (files w1 t \<noteq> files w t \<longrightarrow>
        locate w1 (path_join ''final_videos'' (n @ ''.mp4'')) = Inr t)"
proof -
  let ?w0 = "say (StitchCalled ps n) w"
  let ?final = "path_join ''final_videos'' (n @ ''.mp4'')"
  have same: "file_at ?w0 q = file_at w q" "files ?w0 = files w"
    by (simp_all add: file_at_say) (simp add: say_def)
  show ?thesis
  proof (cases "w1 = ?w0")
    case True
    with same show ?thesis by simp
  next
    case False
    with assms obtain wd out where wd: "mkdir_exist_ok ''final_videos'' ?w0 = Inr wd"
      and w1: "w1 = store_output ?final out wd"
      by (auto simp: encode_video_def Let_def split: sum.splits option.splits)
    have fd: "files wd = files w"
      using mkdir_world[OF wd] same(2) by auto
    have a: "file_at w q \<noteq> None \<longrightarrow> file_at w1 q \<noteq> None"
      using mkdir_keeps_files[OF wd, of q] store_output_keeps_files[of wd q _ ?final out] same(1) w1
      by auto
    have b: "files w1 t \<noteq> files w t \<longrightarrow> locate w1 ?final = Inr t"
      using store_output_touches[of ?final out wd t] fd w1 by simp
    from a b show ?thesis by simp
  qed
qed

lemma encode_video_not_blocked: "fst (encode_video E w ps n) \<noteq> Blocked"
  by (auto simp: encode_video_def Let_def
      split: sum.splits option.splits)


lemma create_stitch_calls_nonempty:
  "\<exists>new. stitch_calls (trace (snd (create_chapter_video E self w t n))) =
           stitch_calls (trace w) @ new \<and> [] \<notin> set new"
proof -
  obtain d where d: "fst (split_chapter_into_scenes E w t) = Val d"
    using split_returns by blast
  show ?thesis
  proof (cases d)
    case None
    have sp: "split_chapter_into_scenes E w t = (Val None, say (GenerateContent t) w)"
      using d None split_world[of E w t] by (simp add: prod_eq_iff)
    then show ?thesis
      by (simp add: create_chapter_video_def stitch_calls_say)
  next
    case (Some scenes)
    with d have "fst (split_chapter_into_scenes E w t) = Val (Some scenes)" by simp
    from create_stitch_calls[OF this, of self n] show ?thesis
      by (auto simp: Let_def)
  qed
qed


subsection \<open>The exceptions of the dictionary operations\<close>

lemma py_index_error: "py_index xs i = Inl e \<Longrightarrow> e = Exn ''IndexError''"
  by (auto simp: py_index_def split: if_splits)

lemma map_sum_id_Inl: "map_sum id f r = Inl e \<Longrightarrow> r = Inl e"
  by (cases r) auto

lemma py_getitem_errors:
  "py_getitem x k = Inl e \<Longrightarrow>
   e = Exn ''KeyError'' \<or> e = Exn ''TypeError'' \<or> e = Exn ''IndexError''"
  by (induction x k rule: py_getitem.induct)
     (auto split: option.splits if_splits dest!: map_sum_id_Inl py_index_error)

lemma py_contains_errors: "py_contains k x = Inl e \<Longrightarrow> e = Exn ''TypeError''"
  by (cases x) auto

lemma py_get_errors: "py_get x k d = Inl e \<Longrightarrow> e = Exn ''AttributeError''"
  by (cases x) auto


subsection \<open>Downloads that are not answered with status 200\<close>

lemma scan_outputs_no_200:
  assumes no200: "\<forall>tr url. \<exists>resp. requests_get E tr url = Inr resp \<and> status_code resp \<noteq> 200"
  shows "scan_outputs E self w outputs ids = (r, w') \<Longrightarrow>
         (r = Val None \<or> (\<exists>e. r = Raise e \<and> lookup_error e))
         \<and> files w' = files w \<and> dirs w' = dirs w"
proof (induction ids arbitrary: w)
  case Nil
  then show ?case by simp
next
  case (Cons node_id ids)
  have get: "\<And>tr url. \<exists>resp. requests_get E tr url = Inr resp \<and> status_code resp \<noteq> 200"
    using no200 by blast
  show ?case
  proof (cases "py_getitem outputs node_id")
    case (Inl e)
    with Cons.prems py_getitem_errors[OF Inl] show ?thesis
      by (auto simp: lookup_error_def)
  next
    case node: (Inr node_out)
    show ?thesis
    proof (cases "py_contains ''videos'' node_out")
      case (Inl e)
      with Cons.prems node py_contains_errors[OF Inl] show ?thesis
        by (auto simp: lookup_error_def)
    next
      case has: (Inr has_videos)
      show ?thesis
      proof (cases has_videos)
        case False
        with Cons.prems node has Cons.IH[of w] show ?thesis by simp
      next
        case True
        show ?thesis
        proof (cases "py_getitem node_out (JStr ''videos'')")
          case (Inl e)
          with Cons.prems node has True py_getitem_errors[OF Inl] show ?thesis
            by (auto simp: lookup_error_def)
        next
          case vids: (Inr videos)
          show ?thesis
          proof (cases "py_getitem videos (JInt 0)")
            case (Inl e)
            with Cons.prems node has True vids py_getitem_errors[OF Inl] show ?thesis
              by (auto simp: lookup_error_def)
          next
            case vd: (Inr video_data)
            show ?thesis
            proof (cases "py_get video_data ''subfolder'' (JStr [])")
              case (Inl e)
              with Cons.prems node has True vids vd py_get_errors[OF Inl] show ?thesis
                by (auto simp: lookup_error_def)
            next
              case sub: (Inr subfolder)
              show ?thesis
              proof (cases "py_getitem video_data (JStr ''filename'')")
                case (Inl e)
                with Cons.prems node has True vids vd sub py_getitem_errors[OF Inl] show ?thesis
                  by (auto simp: lookup_error_def)
              next
                case fn: (Inr filename)
                let ?url = "ViewUrl (server_address self) subfolder filename"
                obtain resp where resp: "requests_get E (trace w) ?url = Inr resp"
                  "status_code resp \<noteq> 200"
                  using get by blast
                from Cons.prems node has True vids vd sub fn resp
                have "scan_outputs E self (say (HttpGet ?url) w) outputs ids = (r, w')"
                  by (simp add: Let_def)
                from Cons.IH[OF this] show ?thesis
                  by (simp add: say_def)
              qed
            qed
          qed
        qed
      qed
    qed
  qed
qed


lemma files_queue:
  "queue_comfyui_prompt E self w v = (r, w') \<Longrightarrow> files w' = files w"
  by (auto simp: queue_comfyui_prompt_def Let_def say_def
      split: ws_session.splits option.splits ws_reply.splits res.splits sum.splits)

lemma dirs_queue:
  "queue_comfyui_prompt E self w v = (r, w') \<Longrightarrow> dirs w' = dirs w"
  by (auto simp: queue_comfyui_prompt_def Let_def say_def
      split: ws_session.splits option.splits ws_reply.splits res.splits sum.splits)

lemma generate_no_200:
  assumes no200: "\<forall>tr url. \<exists>resp. requests_get E tr url = Inr resp \<and> status_code resp \<noteq> 200"
    and g: "generate_clip_for_scene E self w p t = (r, w')"
  shows "r \<noteq> Val (Some q) \<and> files w' = files w"
  using g
  by (auto simp: generate_clip_for_scene_def Let_def
      split: option.splits prod.splits sum.splits if_splits res.splits
      dest!: files_queue scan_outputs_no_200[OF no200])

lemma generate_no_200_dirs:
  assumes no200: "\<forall>tr url. \<exists>resp. requests_get E tr url = Inr resp \<and> status_code resp \<noteq> 200"
    and g: "generate_clip_for_scene E self w p t = (r, w')"
  shows "dirs w' = dirs w"
  using g
  by (auto simp: generate_clip_for_scene_def Let_def
      split: option.splits prod.splits sum.splits if_splits res.splits
      dest!: dirs_queue scan_outputs_no_200[OF no200])


subsection \<open>Copies of the template\<close>

text \<open>\<open>json.loads\<close> only allocates; \<open>json.dumps\<close> of what it built gives the document back.\<close>

lemma loads_extends:
  "\<exists>ext. fst (loads h j) = h @ ext"
  "\<exists>ext. fst (loads_list h js) = h @ ext"
  "\<exists>ext. fst (loads_fields h kvs) = h @ ext"
proof (induction h j and h js and h kvs rule: loads_loads_list_loads_fields.induct)
  case (6 h js)
  then show ?case by (auto split: prod.splits)
next
  case (7 h kvs)
  then show ?case by (auto split: prod.splits)
next
  case (9 h j js)
  obtain h1 v where a: "loads h j = (h1, v)" by (cases "loads h j")
  obtain h2 vs where b: "loads_list h1 js = (h2, vs)" by (cases "loads_list h1 js")
  from 9(1) a obtain e1 where e1: "h1 = h @ e1" by auto
  from 9(2)[OF a[symmetric]] b obtain e2 where "h2 = h1 @ e2" by auto
  with e1 a b show ?case by simp
next
  case (11 h kv kvs)
  obtain h1 v where a: "loads h (snd kv) = (h1, v)" by (cases "loads h (snd kv)")
  obtain h2 fs where b: "loads_fields h1 kvs = (h2, fs)" by (cases "loads_fields h1 kvs")
  from 11(1) a obtain e1 where e1: "h1 = h @ e1" by auto
  from 11(2)[OF a[symmetric]] b obtain e2 where "h2 = h1 @ e2" by auto
  with e1 a b show ?case by simp
qed simp_all

lemma loads_prefix:
  assumes "loads h j = (h', v)"
  shows "length h \<le> length h'" and "a < length h \<Longrightarrow> h' ! a = h ! a"
  using loads_extends(1)[of h j] assms by (auto simp: nth_append)

lemma loads_list_prefix:
  assumes "loads_list h js = (h', vs)"
  shows "length h \<le> length h'" and "a < length h \<Longrightarrow> h' ! a = h ! a"
  using loads_extends(2)[of h js] assms by (auto simp: nth_append)

lemma loads_fields_prefix:
  assumes "loads_fields h kvs = (h', fs)"
  shows "length h \<le> length h'" and "a < length h \<Longrightarrow> h' ! a = h ! a"
  using loads_extends(3)[of h kvs] assms by (auto simp: nth_append)

lemma dumps_stable:
  "dumps_fuel n h v = Some j \<Longrightarrow> n \<le> m \<Longrightarrow> agrees 0 (length h) g h \<Longrightarrow>
   dumps_fuel m g v = Some j"
  "dumps_list n h vs = Some js \<Longrightarrow> n \<le> m \<Longrightarrow> agrees 0 (length h) g h \<Longrightarrow>
   dumps_list m g vs = Some js"
  "dumps_fields n h fs = Some kvs \<Longrightarrow> n \<le> m \<Longrightarrow> agrees 0 (length h) g h \<Longrightarrow>
   dumps_fields m g fs = Some kvs"
proof (induction n h v and n h vs and n h fs arbitrary: j m and js m and kvs m
    rule: dumps_fuel_dumps_list_dumps_fields.induct)
  case (6 h a)
  then show ?case by simp
next
  case (7 n h a)
  from 7(3) have a: "a < length h" by (simp split: if_splits)
  from 7(4) obtain m' where m: "m = Suc m'" "n \<le> m'" by (cases m) auto
  from 7(5) a have ga: "a < length g" "g ! a = h ! a" by (auto simp: agrees_def)
  show ?case
  proof (cases "h ! a")
    case (ODict x1)
    with 7(3) a obtain kvs where k: "dumps_fields n h x1 = Some kvs" "j = JObj kvs"
      by auto
    from 7(1)[OF a ODict k(1) m(2) 7(5)] ga ODict k(2) m(1) show ?thesis by simp
  next
    case (OList x2)
    with 7(3) a obtain js where k: "dumps_list n h x2 = Some js" "j = JArr js"
      by auto
    from 7(2)[OF a OList k(1) m(2) 7(5)] ga OList k(2) m(1) show ?thesis by simp
  qed
next
  case (9 n h v vs)
  from 9(3) obtain j js' where k: "dumps_fuel n h v = Some j" "dumps_list n h vs = Some js'"
    "js = j # js'"
    by (auto split: option.splits)
  from 9(1)[OF k(1) 9(4,5)] 9(2)[OF k(1) k(2) 9(4,5)] k(3) show ?case by simp
next
  case (11 n h kv fs)
  from 11(3) obtain j kvs' where k: "dumps_fuel n h (snd kv) = Some j"
    "dumps_fields n h fs = Some kvs'" "kvs = (fst kv, j) # kvs'"
    by (auto split: option.splits)
  from 11(1)[OF k(1) 11(4,5)] 11(2)[OF k(1) k(2) 11(4,5)] k(3) show ?case by simp
qed simp_all

lemma loads_dumps:
  "loads h j = (h', v) \<Longrightarrow> agrees (length h) (length h') g h' \<Longrightarrow>
   length h' - length h \<le> n \<Longrightarrow> dumps_fuel n g v = Some j"
  "loads_list h js = (h', vs) \<Longrightarrow> agrees (length h) (length h') g h' \<Longrightarrow>
   length h' - length h \<le> n \<Longrightarrow> dumps_list n g vs = Some js"
  "loads_fields h kvs = (h', fs) \<Longrightarrow> agrees (length h) (length h') g h' \<Longrightarrow>
   length h' - length h \<le> n \<Longrightarrow> dumps_fields n g fs = Some kvs"
proof (induction h j and h js and h kvs arbitrary: h' v n and h' vs n and h' fs n
    rule: loads_loads_list_loads_fields.induct)
  case (6 h js)
  obtain h1 vs where l: "loads_list h js = (h1, vs)" by (cases "loads_list h js")
  with 6(2) have r: "h' = h1 @ [OList vs]" "v = VRef (length h1)" by auto
  have le: "length h \<le> length h1" using loads_list_prefix(1)[OF l] .
  with 6(4) r obtain m where m: "n = Suc m" "length h1 - length h \<le> m"
    by (cases n) auto
  from 6(3) r le have ga: "length h1 < length g" "g ! length h1 = OList vs"
    by (auto simp: agrees_def)
  from 6(3) r have "agrees (length h) (length h1) g h1"
    by (auto simp: agrees_def nth_append)
  from 6(1)[OF l this m(2)] ga r m(1) show ?case by simp
next
  case (7 h kvs)
  obtain h1 fs where l: "loads_fields h kvs = (h1, fs)" by (cases "loads_fields h kvs")
  with 7(2) have r: "h' = h1 @ [ODict fs]" "v = VRef (length h1)" by auto
  have le: "length h \<le> length h1" using loads_fields_prefix(1)[OF l] .
  with 7(4) r obtain m where m: "n = Suc m" "length h1 - length h \<le> m"
    by (cases n) auto
  from 7(3) r le have ga: "length h1 < length g" "g ! length h1 = ODict fs"
    by (auto simp: agrees_def)
  from 7(3) r have "agrees (length h) (length h1) g h1"
    by (auto simp: agrees_def nth_append)
  from 7(1)[OF l this m(2)] ga r m(1) show ?case by simp
next
  case (9 h j js)
  obtain h1 v where a: "loads h j = (h1, v)" by (cases "loads h j")
  obtain h2 vs' where b: "loads_list h1 js = (h2, vs')" by (cases "loads_list h1 js")
  from 9(3) a b have r: "h' = h2" "vs = v # vs'" by auto
  note p1 = loads_prefix[OF a] and p2 = loads_list_prefix[OF b]
  from 9(4) r p1 p2 have g1: "agrees (length h) (length h1) g h1"
    by (auto simp: agrees_def)
  from 9(4) r p1 p2 have g2: "agrees (length h1) (length h2) g h2"
    by (auto simp: agrees_def)
  from 9(5) r p1 p2 have n1: "length h1 - length h \<le> n" and n2: "length h2 - length h1 \<le> n"
    by auto
  from 9(1)[OF a g1 n1] 9(2)[OF a[symmetric] b g2 n2] r show ?case by simp
next
  case (11 h kv kvs)
  obtain h1 v where a: "loads h (snd kv) = (h1, v)" by (cases "loads h (snd kv)")
  obtain h2 fs' where b: "loads_fields h1 kvs = (h2, fs')" by (cases "loads_fields h1 kvs")
  from 11(3) a b have r: "h' = h2" "fs = (fst kv, v) # fs'" by auto
  note p1 = loads_prefix[OF a] and p2 = loads_fields_prefix[OF b]
  from 11(4) r p1 p2 have g1: "agrees (length h) (length h1) g h1"
    by (auto simp: agrees_def)
  from 11(4) r p1 p2 have g2: "agrees (length h1) (length h2) g h2"
    by (auto simp: agrees_def)
  from 11(5) r p1 p2 have n1: "length h1 - length h \<le> n" and n2: "length h2 - length h1 \<le> n"
    by auto
  from 11(1)[OF a g1 n1] 11(2)[OF a[symmetric] b g2 n2] r show ?case by simp
qed auto

lemma loads_then_dumps: "loads h j = (h', v) \<Longrightarrow> dumps h' v = Some j"
  unfolding dumps_def by (rule loads_dumps(1)[where h=h]) (auto simp: agrees_def)


text \<open>The heap operations of lines 96--101 and their readings on the JSON value.\<close>

lemma dumps_fuel_str: "dumps_fuel n g v = Some (JStr s) \<longleftrightarrow> v = VStr s"
  by (cases v; cases n) (auto split: pyobj.splits)

lemma dumps_fuel_dict:
  "dumps_fuel n g v = Some j \<Longrightarrow>
   (case heap_dict g v of
      None \<Rightarrow> (\<forall>kvs. j \<noteq> JObj kvs)
    | Some fs \<Rightarrow> (\<exists>m kvs. n = Suc m \<and> j = JObj kvs \<and> dumps_fields m g fs = Some kvs))"
  by (cases v; cases n) (auto simp: heap_dict_def split: pyobj.splits if_splits)

lemma dumps_fields_lookup:
  "dumps_fields m g fs = Some kvs \<Longrightarrow>
   (case map_of fs k of
      None \<Rightarrow> map_of kvs k = None
    | Some v \<Rightarrow> (\<exists>j. map_of kvs k = Some j \<and> dumps_fuel m g v = Some j))"
proof (induction fs arbitrary: kvs)
  case Nil
  then show ?case by simp
next
  case (Cons kv fs)
  from Cons.prems obtain j kvs' where k: "dumps_fuel m g (snd kv) = Some j"
    "dumps_fields m g fs = Some kvs'" "kvs = (fst kv, j) # kvs'"
    by (auto split: option.splits)
  from Cons.IH[OF k(2)] k(1,3) show ?case
    by (cases kv) (auto split: option.splits)
qed

lemma title_matches_template:
  assumes "dumps_fuel n g v = Some j"
  shows "title_matches g v title = template_title_matches j title"
proof (cases "heap_dict g v")
  case None
  with dumps_fuel_dict[OF assms] have "\<forall>kvs. j \<noteq> JObj kvs" by simp
  then have "template_title_matches j title = Inl (Exn ''AttributeError'')"
    by (cases j) auto
  with None show ?thesis by (simp add: title_matches_def)
next
  case (Some fs)
  with dumps_fuel_dict[OF assms] obtain m kvs where
    k: "n = Suc m" "j = JObj kvs" "dumps_fields m g fs = Some kvs"
    by auto
  note l = dumps_fields_lookup[OF k(3), of "''_meta''"]
  show ?thesis
  proof (cases "map_of fs ''_meta''")
    case None
    with l Some k(2) show ?thesis by (simp add: title_matches_def)
  next
    case meta: (Some mv)
    with l obtain jm where jm: "map_of kvs ''_meta'' = Some jm" "dumps_fuel m g mv = Some jm"
      by auto
    show ?thesis
    proof (cases "heap_dict g mv")
      case None
      with dumps_fuel_dict[OF jm(2)] have "\<forall>kvs. jm \<noteq> JObj kvs" by simp
      then have "template_title_matches j title = Inl (Exn ''AttributeError'')"
        using k(2) jm(1) by (cases jm) auto
      with None Some meta show ?thesis by (simp add: title_matches_def)
    next
      case ms: (Some ms)
      with dumps_fuel_dict[OF jm(2)] obtain m' jms where
        q: "m = Suc m'" "jm = JObj jms" "dumps_fields m' g ms = Some jms"
        by auto
      note l2 = dumps_fields_lookup[OF q(3), of "''title''"]
      have "(map_of ms ''title'' = Some (VStr title)) = (map_of jms ''title'' = Some (JStr title))"
        using l2 by (auto split: option.splits simp: dumps_fuel_str)
      with Some meta ms k(2) jm(1) q(2) show ?thesis
        by (simp add: title_matches_def)
    qed
  qed
qed

lemma find_node_template:
  "dumps_fields m g fs = Some kvs \<Longrightarrow> find_node g fs title = template_find_node kvs title"
proof (induction fs arbitrary: kvs)
  case Nil
  then show ?case by simp
next
  case (Cons kv fs)
  from Cons.prems obtain j kvs' where k: "dumps_fuel m g (snd kv) = Some j"
    "dumps_fields m g fs = Some kvs'" "kvs = (fst kv, j) # kvs'"
    by (auto split: option.splits)
  from Cons.IH[OF k(2)] title_matches_template[OF k(1), of title] k(3) show ?case
    by (simp split: sum.splits)
qed

lemma template_find_node_none:
  "\<forall>kv \<in> set nodes. template_title_matches (snd kv) title = Inr False \<Longrightarrow>
   template_find_node nodes title = Inr None"
  by (induction nodes) auto


lemma dumps_fields_dict_set:
  "dumps_fields m g fs = Some kvs \<Longrightarrow>
   dumps_fields m g (dict_set fs k (VStr s)) = Some (dict_set kvs k (JStr s))"
proof (induction fs arbitrary: kvs)
  case Nil
  then show ?case by simp
next
  case (Cons kv fs)
  from Cons.prems obtain j kvs' where k: "dumps_fuel m g (snd kv) = Some j"
    "dumps_fields m g fs = Some kvs'" "kvs = (fst kv, j) # kvs'"
    by (auto split: option.splits)
  from Cons.IH[OF k(2)] k show ?case
    by auto
qed

lemma loads_obj:
  assumes "loads h (JObj kvs) = (h', v)"
  obtains hf fs where "loads_fields h kvs = (hf, fs)" "h' = hf @ [ODict fs]" "v = VRef (length hf)"
  using assms by (auto split: prod.splits)

lemma loads_fields_focus:
  assumes "loads_fields h kvs = (h', fs)" and "map_of kvs k = Some j"
  obtains ha hb v where
    "map_of fs k = Some v"
    "loads ha j = (hb, v)"
    "length h \<le> length ha" "length hb \<le> length h'"
    "\<And>a. a < length hb \<Longrightarrow> h' ! a = hb ! a"
    "\<And>g n j'. \<lbrakk>agrees (length h) (length ha) g h'; agrees (length hb) (length h') g h';
        dumps_fuel n g v = Some j'; length h' - length h \<le> n\<rbrakk>
      \<Longrightarrow> dumps_fields n g fs = Some (dict_set kvs k j')"
  using assms
proof (induction kvs arbitrary: h fs thesis)
  case Nil
  then show ?case by simp
next
  case (Cons kv kvs)
  obtain h1 v1 where a: "loads h (snd kv) = (h1, v1)" by (cases "loads h (snd kv)")
  obtain h2 fs' where b0: "loads_fields h1 kvs = (h2, fs')" by (cases "loads_fields h1 kvs")
  from Cons.prems(2) a b0 have r: "h' = h2" "fs = (fst kv, v1) # fs'" by auto
  from b0 r have b: "loads_fields h1 kvs = (h', fs')" by simp
  note p1 = loads_prefix[OF a] and p2 = loads_fields_prefix[OF b]
  show ?case
  proof (cases "fst kv = k")
    case True
    with Cons.prems(3) have j: "snd kv = j" by (cases kv) auto
    show ?thesis
    proof (rule Cons.prems(1)[of v1 h h1])
      show "map_of fs k = Some v1" using r True by simp
      show "loads h j = (h1, v1)" using a j by simp
      show "length h \<le> length h" by simp
      show "length h1 \<le> length h'" using p2 r by simp
      show "\<And>a. a < length h1 \<Longrightarrow> h' ! a = h1 ! a" using p2 r by simp
    next
      fix g n j'
      assume g: "agrees (length h1) (length h') g h'" "dumps_fuel n g v1 = Some j'"
        "length h' - length h \<le> n"
      from g(3) p1 have "length h' - length h1 \<le> n" by simp
      from loads_dumps(3)[OF b _ this, of g] g(1) r
      have "dumps_fields n g fs' = Some kvs" by simp
      with g(2) r True show "dumps_fields n g fs = Some (dict_set (kv # kvs) k j')"
        by simp
    qed
  next
    case False
    with Cons.prems(3) have m: "map_of kvs k = Some j" by (cases kv) auto
    show ?thesis
    proof (rule Cons.IH[OF _ b m])
      fix v ha hb
      assume f: "map_of fs' k = Some v" "loads ha j = (hb, v)"
        "length h1 \<le> length ha" "length hb \<le> length h'"
        "\<And>a. a < length hb \<Longrightarrow> h' ! a = hb ! a"
        "\<And>g n j'. \<lbrakk>agrees (length h1) (length ha) g h'; agrees (length hb) (length h') g h';
          dumps_fuel n g v = Some j'; length h' - length h1 \<le> n\<rbrakk>
          \<Longrightarrow> dumps_fields n g fs' = Some (dict_set kvs k j')"
      show thesis
      proof (rule Cons.prems(1)[of v ha hb])
        show "map_of fs k = Some v" using r False f(1) by simp
        show "loads ha j = (hb, v)" by fact
        show "length h \<le> length ha" using p1 f(3) by simp
        show "length hb \<le> length h'" using f(4) r by simp
        show "\<And>a. a < length hb \<Longrightarrow> h' ! a = hb ! a" using f(5) r by simp
      next
        fix g n j'
        assume g: "agrees (length h) (length ha) g h'" "agrees (length hb) (length h') g h'"
          "dumps_fuel n g v = Some j'" "length h' - length h \<le> n"
        from g(1) f(3) p1 p2 r have g1: "agrees (length h) (length h1) g h1"
          by (auto simp: agrees_def)
        from g(4) p1 p2 r have n1: "length h1 - length h \<le> n" by simp
        from loads_dumps(1)[OF a g1 n1] have d1: "dumps_fuel n g v1 = Some (snd kv)" .
        from g(1) p1 r have g2: "agrees (length h1) (length ha) g h'"
          by (auto simp: agrees_def)
        from g(4) p1 r have n2: "length h' - length h1 \<le> n" by simp
        from f(6)[OF g2 g(2) g(3) n2]
        have "dumps_fields n g fs' = Some (dict_set kvs k j')" by simp
        with d1 r False show "dumps_fields n g fs = Some (dict_set (kv # kvs) k j')"
          by (cases kv) simp
      qed
    qed
  qed
qed


lemma set_prompt_error:
  assumes "dumps_fields m g fs = Some nodes"
    and "template_set_prompt nodes nid p = Inl e"
  shows "set_prompt g fs nid p = Inl e"
proof -
  note l = dumps_fields_lookup[OF assms(1), of nid]
  show ?thesis
  proof (cases "map_of fs nid")
    case None
    with l assms(2) show ?thesis
      by (simp add: set_prompt_def template_set_prompt_def)
  next
    case (Some n)
    with l obtain jn where jn: "map_of nodes nid = Some jn" "dumps_fuel m g n = Some jn"
      by auto
    show ?thesis
    proof (cases "heap_dict g n")
      case None
      with dumps_fuel_dict[OF jn(2)] have "\<forall>kvs. jn \<noteq> JObj kvs" by simp
      with assms(2) jn(1) have "e = Exn ''TypeError''"
        by (cases jn) (auto simp: template_set_prompt_def)
      with None Some show ?thesis by (simp add: set_prompt_def)
    next
      case nfs: (Some nfs)
      with dumps_fuel_dict[OF jn(2)] obtain m' jfs where
        q: "m = Suc m'" "jn = JObj jfs" "dumps_fields m' g nfs = Some jfs"
        by auto
      note l2 = dumps_fields_lookup[OF q(3), of "''inputs''"]
      show ?thesis
      proof (cases "map_of nfs ''inputs''")
        case None
        with l2 assms(2) jn(1) q(2) have "e = Exn ''KeyError''"
          by (simp add: template_set_prompt_def)
        with None Some nfs show ?thesis by (simp add: set_prompt_def)
      next
        case i: (Some i)
        with l2 obtain ji where ji: "map_of jfs ''inputs'' = Some ji" "dumps_fuel m' g i = Some ji"
          by auto
        show ?thesis
        proof (cases "heap_dict g i")
          case None
          with dumps_fuel_dict[OF ji(2)] have "\<forall>kvs. ji \<noteq> JObj kvs" by simp
          with assms(2) jn(1) q(2) ji(1) have "e = Exn ''TypeError''"
            by (cases ji) (auto simp: template_set_prompt_def)
          with None Some nfs i show ?thesis by (simp add: set_prompt_def)
        next
          case (Some ifs)
          with dumps_fuel_dict[OF ji(2)] obtain kvs where "ji = JObj kvs" by auto
          with assms(2) jn(1) q(2) ji(1) show ?thesis
            by (simp add: template_set_prompt_def)
        qed
      qed
    qed
  qed
qed

lemma loads_fields_focus_ex:
  assumes "loads_fields h kvs = (h', fs)" and "map_of kvs k = Some j"
  shows "\<exists>ha hb v. map_of fs k = Some v \<and> loads ha j = (hb, v)
           \<and> length h \<le> length ha \<and> length hb \<le> length h'
           \<and> (\<forall>a < length hb. h' ! a = hb ! a)
           \<and> (\<forall>g n j'. agrees (length h) (length ha) g h' \<longrightarrow>
                 agrees (length hb) (length h') g h' \<longrightarrow>
                 dumps_fuel n g v = Some j' \<longrightarrow> length h' - length h \<le> n \<longrightarrow>
                 dumps_fields n g fs = Some (dict_set kvs k j'))"
  by (rule loads_fields_focus[OF assms]) blast

lemma set_prompt_dumps:
  assumes l: "loads h (JObj nodes) = (h1, wfl)"
    and t: "template_set_prompt nodes nid p = Inr j'"
  obtains fs a obj where
    "heap_dict h1 wfl = Some fs"
    "length h \<le> a" "a < length h1"
    "set_prompt h1 fs nid p = Inr (h1[a := obj])"
    "dumps (h1[a := obj]) wfl = Some j'"
proof -
  from l obtain hN fs where A: "loads_fields h nodes = (hN, fs)" "h1 = hN @ [ODict fs]"
    "wfl = VRef (length hN)"
    by (rule loads_obj)
  from t obtain jfs jifs where J: "map_of nodes nid = Some (JObj jfs)"
    "map_of jfs ''inputs'' = Some (JObj jifs)"
    "j' = JObj (dict_set nodes nid (JObj (dict_set jfs ''inputs''
            (JObj (dict_set jifs ''text'' (JStr p))))))"
    by (auto simp: template_set_prompt_def split: option.splits json.splits)
  from loads_fields_focus_ex[OF A(1) J(1)] obtain ha hb nv where FA: "map_of fs nid = Some nv"
    "loads ha (JObj jfs) = (hb, nv)" "length h \<le> length ha" "length hb \<le> length hN"
    "\<forall>a < length hb. hN ! a = hb ! a"
    "\<forall>g n j'. agrees (length h) (length ha) g hN \<longrightarrow> agrees (length hb) (length hN) g hN \<longrightarrow>
        dumps_fuel n g nv = Some j' \<longrightarrow> length hN - length h \<le> n \<longrightarrow>
        dumps_fields n g fs = Some (dict_set nodes nid j')"
    by blast
  from FA(2) obtain hM nfs where B: "loads_fields ha jfs = (hM, nfs)" "hb = hM @ [ODict nfs]"
    "nv = VRef (length hM)"
    by (rule loads_obj)
  from loads_fields_focus_ex[OF B(1) J(2)] obtain hc hd iv where FB:
    "map_of nfs ''inputs'' = Some iv"
    "loads hc (JObj jifs) = (hd, iv)" "length ha \<le> length hc" "length hd \<le> length hM"
    "\<forall>a < length hd. hM ! a = hd ! a"
    "\<forall>g n j'. agrees (length ha) (length hc) g hM \<longrightarrow> agrees (length hd) (length hM) g hM \<longrightarrow>
        dumps_fuel n g iv = Some j' \<longrightarrow> length hM - length ha \<le> n \<longrightarrow>
        dumps_fields n g nfs = Some (dict_set jfs ''inputs'' j')"
    by blast
  from FB(2) obtain hI ifs where C: "loads_fields hc jifs = (hI, ifs)" "hd = hI @ [ODict ifs]"
    "iv = VRef (length hI)"
    by (rule loads_obj)
  let ?ia = "length hI" and ?na = "length hM" and ?wa = "length hN"
  let ?obj = "ODict (dict_set ifs ''text'' (VStr p))"
  let ?g = "h1[?ia := ?obj]"
  note pc = loads_fields_prefix[OF C(1)]
  have ord: "length h \<le> length ha" "length ha \<le> length hc" "length hc \<le> ?ia"
    "?ia < length hd" "length hd \<le> ?na" "?na < length hb" "length hb \<le> ?wa"
    "?wa < length h1"
    using FA(3,4) FB(3,4) pc(1) A(2) B(2) C(2) by simp_all
  have h1_hN: "\<And>x. x < ?wa \<Longrightarrow> h1 ! x = hN ! x" using A(2) by (simp add: nth_append)
  have hb_hM: "\<And>x. x < ?na \<Longrightarrow> hb ! x = hM ! x" using B(2) by (simp add: nth_append)
  have hd_hI: "\<And>x. x < ?ia \<Longrightarrow> hd ! x = hI ! x" using C(2) by (simp add: nth_append)
  have h1_na: "h1 ! ?na = ODict nfs"
    using h1_hN[of ?na] FA(5) B(2) ord by simp
  have h1_hM: "\<And>x. x < ?na \<Longrightarrow> h1 ! x = hM ! x"
    using h1_hN FA(5) hb_hM ord by simp
  have h1_ia: "h1 ! ?ia = ODict ifs"
    using h1_hM[of ?ia] FB(5) C(2) ord by simp
  have h1_hI: "\<And>x. x < ?ia \<Longrightarrow> h1 ! x = hI ! x"
    using h1_hM FB(5) hd_hI ord by simp
  have hd1: "heap_dict h1 wfl = Some fs"
    using A(2,3) by (simp add: heap_dict_def)
  have sp: "set_prompt h1 fs nid p = Inr ?g"
    using FA(1) B(3) FB(1) C(3) h1_na h1_ia ord
    by (simp add: set_prompt_def heap_dict_def)
  have g_other: "\<And>x. x \<noteq> ?ia \<Longrightarrow> ?g ! x = h1 ! x" by simp
  have g_ia: "?g ! ?ia = ?obj" using ord by simp
  have len: "length ?g = length h1" by simp
  \<comment> \<open>the inputs dictionary\<close>
  have gI: "agrees (length hc) ?ia ?g hI"
    using h1_hI ord by (simp add: agrees_def)
  have dI: "\<And>n. ?ia \<le> n \<Longrightarrow> dumps_fields n ?g ifs = Some jifs"
    using loads_dumps(3)[OF C(1) gI] by simp
  have di: "\<And>n. ?ia < n \<Longrightarrow>
      dumps_fuel n ?g iv = Some (JObj (dict_set jifs ''text'' (JStr p)))"
  proof -
    fix n assume "?ia < n"
    then obtain m where m: "n = Suc m" "?ia \<le> m" by (cases n) auto
    from dumps_fields_dict_set[OF dI[OF m(2)], of "''text''" p] g_ia ord C(3) m(1)
    show "dumps_fuel n ?g iv = Some (JObj (dict_set jifs ''text'' (JStr p)))"
      by simp
  qed
  \<comment> \<open>the node\<close>
  have gB1: "agrees (length ha) (length hc) ?g hM"
    using h1_hM ord by (simp add: agrees_def)
  have gB2: "agrees (length hd) ?na ?g hM"
    using h1_hM ord by (simp add: agrees_def)
  have dn: "\<And>n. ?na < n \<Longrightarrow>
      dumps_fuel n ?g nv = Some (JObj (dict_set jfs ''inputs''
            (JObj (dict_set jifs ''text'' (JStr p)))))"
  proof -
    fix n assume "?na < n"
    then obtain m where m: "n = Suc m" "?na \<le> m" by (cases n) auto
    from m(2) ord have "?ia < m" by simp
    from FB(6)[rule_format, OF gB1 gB2 di[OF this]] m(2)
    have "dumps_fields m ?g nfs = Some (dict_set jfs ''inputs''
            (JObj (dict_set jifs ''text'' (JStr p))))" by simp
    with h1_na g_other[of ?na] ord B(3) m(1)
    show "dumps_fuel n ?g nv = Some (JObj (dict_set jfs ''inputs''
            (JObj (dict_set jifs ''text'' (JStr p)))))"
      by simp
  qed
  \<comment> \<open>the workflow\<close>
  have gA1: "agrees (length h) (length ha) ?g hN"
    using h1_hN ord by (simp add: agrees_def)
  have gA2: "agrees (length hb) ?wa ?g hN"
    using h1_hN ord by (simp add: agrees_def)
  from ord have "?na < ?wa" by simp
  from FA(6)[rule_format, OF gA1 gA2 dn[OF this]]
  have "dumps_fields ?wa ?g fs = Some (dict_set nodes nid (JObj (dict_set jfs ''inputs''
            (JObj (dict_set jifs ''text'' (JStr p))))))" by simp
  with A(2,3) g_other[of ?wa] ord J(3) have dw: "dumps ?g wfl = Some j'"
    by (simp add: dumps_def)
  from ord have b: "length h \<le> ?ia" "?ia < length h1" by simp_all
  show ?thesis
    by (rule that[of fs ?ia ?obj, OF hd1 b sp dw])
qed


lemma generate_before_send:
  assumes tmpl: "dumps (heap w) (base_workflow self) = Some template"
    and err: "workflow_for template title p = Inl e"
  shows "generate_clip_for_scene E self w p title =
         (Raise e, w\<lparr>heap := fst (loads (heap w) template)\<rparr>)"
proof -
  obtain h1 wfl where l: "loads (heap w) template = (h1, wfl)"
    by (cases "loads (heap w) template")
  from loads_then_dumps[OF l] have d: "dumps_fuel (length h1) h1 wfl = Some template"
    by (simp add: dumps_def)
  show ?thesis
  proof (cases "heap_dict h1 wfl")
    case None
    with dumps_fuel_dict[OF d] have "\<forall>kvs. template \<noteq> JObj kvs" by simp
    with err have "e = Exn ''AttributeError''"
      by (cases template) (auto simp: workflow_for_def)
    with None tmpl l show ?thesis
      by (simp add: generate_clip_for_scene_def)
  next
    case (Some fs)
    with dumps_fuel_dict[OF d] obtain m nodes where
      k: "template = JObj nodes" "dumps_fields m h1 fs = Some nodes"
      by auto
    note f = find_node_template[OF k(2), of title]
    show ?thesis
    proof (cases "template_find_node nodes title")
      case (Inl x)
      with err k(1) have "e = x" by (simp add: workflow_for_def)
      with Inl f Some tmpl l show ?thesis
        by (simp add: generate_clip_for_scene_def)
    next
      case (Inr target)
      show ?thesis
      proof (cases target)
        case None
        with Inr err k(1) have "e = Exn ''ValueError''" by (simp add: workflow_for_def)
        with None Inr f Some tmpl l show ?thesis
          by (simp add: generate_clip_for_scene_def)
      next
        case nid: (Some nid)
        show ?thesis
        proof (cases "nid = []")
          case True
          with nid Inr err k(1) have "e = Exn ''ValueError''" by (simp add: workflow_for_def)
          with True nid Inr f Some tmpl l show ?thesis
            by (simp add: generate_clip_for_scene_def)
        next
          case False
          with nid Inr err k(1) have "template_set_prompt nodes nid p = Inl e"
            by (simp add: workflow_for_def)
          from set_prompt_error[OF k(2) this] False nid Inr f Some tmpl l show ?thesis
            by (simp add: generate_clip_for_scene_def)
        qed
      qed
    qed
  qed
qed

lemma generate_after_set_prompt:
  assumes tmpl: "dumps (heap w) (base_workflow self) = Some template"
    and ok: "workflow_for template title p = Inr j"
  obtains h1 wfl a obj where
    "loads (heap w) template = (h1, wfl)"
    "length (heap w) \<le> a" "a < length h1"
    "dumps (h1[a := obj]) wfl = Some j"
    "generate_clip_for_scene E self w p title =
       (case queue_comfyui_prompt E self (w\<lparr>heap := h1[a := obj]\<rparr>) wfl of
          (Blocked, w3) \<Rightarrow> (Blocked, w3)
        | (Raise x, w3) \<Rightarrow> (Raise x, w3)
        | (Val outputs, w3) \<Rightarrow>
            (case py_iter outputs of
               Inl x \<Rightarrow> (Raise x, w3)
             | Inr ids \<Rightarrow> scan_outputs E self w3 outputs ids))"
proof -
  obtain h1 wfl where l: "loads (heap w) template = (h1, wfl)"
    by (cases "loads (heap w) template")
  from ok obtain nodes nid where k: "template = JObj nodes"
    "template_find_node nodes title = Inr (Some nid)" "nid \<noteq> []"
    "template_set_prompt nodes nid p = Inr j"
    by (auto simp: workflow_for_def split: json.splits sum.splits option.splits if_splits)
  from l k(1) have l': "loads (heap w) (JObj nodes) = (h1, wfl)" by simp
  from l' k(4) obtain fs a obj where s: "heap_dict h1 wfl = Some fs"
    "length (heap w) \<le> a" "a < length h1"
    "set_prompt h1 fs nid p = Inr (h1[a := obj])"
    "dumps (h1[a := obj]) wfl = Some j"
    by (rule set_prompt_dumps)
  from loads_then_dumps[OF l] have d: "dumps_fuel (length h1) h1 wfl = Some template"
    by (simp add: dumps_def)
  with dumps_fuel_dict[OF d] s(1) k(1) obtain m where "dumps_fields m h1 fs = Some nodes"
    by auto
  from find_node_template[OF this, of title] k(2)
  have f: "find_node h1 fs title = Inr (Some nid)" by simp
  have "generate_clip_for_scene E self w p title =
       (case queue_comfyui_prompt E self (w\<lparr>heap := h1[a := obj]\<rparr>) wfl of
          (Blocked, w3) \<Rightarrow> (Blocked, w3)
        | (Raise x, w3) \<Rightarrow> (Raise x, w3)
        | (Val outputs, w3) \<Rightarrow>
            (case py_iter outputs of
               Inl x \<Rightarrow> (Raise x, w3)
             | Inr ids \<Rightarrow> scan_outputs E self w3 outputs ids))"
    using tmpl l s(1,4) f k(3)
    by (simp add: generate_clip_for_scene_def)
  with l s(2,3,5) show ?thesis
    by (rule that[of h1 wfl a obj])
qed


text \<open>What one render job and one run of the loop do to the heap and to the messages sent.\<close>

lemma sent_messages_append: "sent_messages (xs @ ys) = sent_messages xs @ sent_messages ys"
  by (induction xs rule: sent_messages.induct) auto

lemma sent_messages_say:
  "sent_messages (trace (say e w)) = sent_messages (trace w) @ sent_messages [e]"
  by (simp add: say_def sent_messages_append)

lemma heap_say: "heap (say e w) = heap w"
  by (simp add: say_def)

lemma heap_mkdir: "mkdir_exist_ok p w = Inr w' \<Longrightarrow> heap w' = heap w"
  by (auto simp: mkdir_exist_ok_def split: sum.splits if_splits)

lemma heap_write_bytes: "write_bytes p b w = Inr w' \<Longrightarrow> heap w' = heap w"
  by (auto simp: write_bytes_def split: sum.splits if_splits)

lemma scan_outputs_heap:
  "scan_outputs E self w outputs ids = (r, w') \<Longrightarrow> heap w' = heap w"
proof (induction ids arbitrary: w)
  case Nil
  then show ?case by simp
next
  case (Cons node_id ids)
  from Cons.prems show ?case
    by (auto simp: Let_def heap_say split: sum.splits if_splits json.splits
        dest!: Cons.IH heap_mkdir heap_write_bytes)
qed

lemma scan_outputs_sent_messages:
  "scan_outputs E self w outputs ids = (r, w') \<Longrightarrow>
   sent_messages (trace w') = sent_messages (trace w)"
proof (induction ids arbitrary: w)
  case Nil
  then show ?case by simp
next
  case (Cons node_id ids)
  from Cons.prems show ?case
    by (auto simp: Let_def sent_messages_say split: sum.splits if_splits json.splits
        dest!: Cons.IH trace_mkdir trace_write_bytes)
qed

lemma scan_outputs_sent:
  "scan_outputs E self w outputs ids = (r, w') \<Longrightarrow>
   heap w' = heap w \<and> sent_messages (trace w') = sent_messages (trace w)"
  using scan_outputs_heap scan_outputs_sent_messages by blast

lemma queue_sent:
  assumes "dumps (heap w) v = Some j"
    and "queue_comfyui_prompt E self w v = (r, w')"
  shows "heap w' = heap w \<and>
         (sent_messages (trace w') = sent_messages (trace w) \<and> \<not> returned r
          \<or> sent_messages (trace w') = sent_messages (trace w) @ [job_message self j])"
  using assms
  by (auto simp: queue_comfyui_prompt_def Let_def sent_messages_say heap_say job_message_def
      split: ws_session.splits option.splits ws_reply.splits res.splits sum.splits)

lemma generate_isolated:
  assumes tmpl: "dumps (heap w) (base_workflow self) = Some template"
    and g: "generate_clip_for_scene E self w p title = (r, w')"
  shows "dumps (heap w') (base_workflow self) = Some template"
    and "length (heap w) \<le> length (heap w')"
    and "\<forall>a < length (heap w). heap w' ! a = heap w ! a"
    and "sent_messages (trace w') = sent_messages (trace w) \<and> \<not> returned r
         \<or> (\<exists>j. workflow_for template title p = Inr j
              \<and> sent_messages (trace w') = sent_messages (trace w) @ [job_message self j])"
proof -
  have frame: "length (heap w) \<le> length (heap w') \<and> (\<forall>a < length (heap w). heap w' ! a = heap w ! a)
    \<and> (sent_messages (trace w') = sent_messages (trace w) \<and> \<not> returned r
         \<or> (\<exists>j. workflow_for template title p = Inr j
              \<and> sent_messages (trace w') = sent_messages (trace w) @ [job_message self j]))"
  proof (cases "workflow_for template title p")
    case (Inl e)
    obtain h1 wfl where l: "loads (heap w) template = (h1, wfl)"
      by (cases "loads (heap w) template")
    from generate_before_send[OF tmpl Inl, of E] g l have "w' = w\<lparr>heap := h1\<rparr>" "r = Raise e"
      by simp_all
    with loads_prefix[OF l] show ?thesis by simp
  next
    case (Inr j)
    from tmpl Inr obtain h1 wfl a obj where s:
      "loads (heap w) template = (h1, wfl)"
      "length (heap w) \<le> a" "a < length h1"
      "dumps (h1[a := obj]) wfl = Some j"
      "generate_clip_for_scene E self w p title =
       (case queue_comfyui_prompt E self (w\<lparr>heap := h1[a := obj]\<rparr>) wfl of
          (Blocked, w3) \<Rightarrow> (Blocked, w3)
        | (Raise x, w3) \<Rightarrow> (Raise x, w3)
        | (Val outputs, w3) \<Rightarrow>
            (case py_iter outputs of
               Inl x \<Rightarrow> (Raise x, w3)
             | Inr ids \<Rightarrow> scan_outputs E self w3 outputs ids))"
      by (rule generate_after_set_prompt[where E=E])
    let ?w2 = "w\<lparr>heap := h1[a := obj]\<rparr>"
    obtain r3 w3 where q: "queue_comfyui_prompt E self ?w2 wfl = (r3, w3)"
      by (cases "queue_comfyui_prompt E self ?w2 wfl")
    from s(4) have "dumps (heap ?w2) wfl = Some j" by simp
    note qs = queue_sent[OF this q]
    have "heap w' = heap w3 \<and> sent_messages (trace w') = sent_messages (trace w3)
          \<and> (\<not> returned r3 \<longrightarrow> \<not> returned r)"
      using g s(5) q
      by (auto split: res.splits sum.splits dest!: scan_outputs_sent)
    with qs Inr have 1: "heap w' = h1[a := obj]"
      and 2: "sent_messages (trace w') = sent_messages (trace w) \<and> \<not> returned r
         \<or> (\<exists>j. workflow_for template title p = Inr j
              \<and> sent_messages (trace w') = sent_messages (trace w) @ [job_message self j])"
      by auto
    from 1 2 s(2) loads_prefix[OF s(1)] show ?thesis by simp
  qed
  then show "length (heap w) \<le> length (heap w')"
    and "\<forall>a < length (heap w). heap w' ! a = heap w ! a"
    and "sent_messages (trace w') = sent_messages (trace w) \<and> \<not> returned r
         \<or> (\<exists>j. workflow_for template title p = Inr j
              \<and> sent_messages (trace w') = sent_messages (trace w) @ [job_message self j])"
    by simp_all
  from frame have "agrees 0 (length (heap w)) (heap w') (heap w)"
    by (simp add: agrees_def)
  from dumps_stable(1)[OF tmpl[unfolded dumps_def] _ this, of "length (heap w')"] frame
  show "dumps (heap w') (base_workflow self) = Some template"
    by (simp add: dumps_def)
qed


lemma collect_isolated:
  "dumps (heap w) (base_workflow self) = Some template \<Longrightarrow>
   collect_clips E self w scenes acc = (r, w') \<Longrightarrow>
   dumps (heap w') (base_workflow self) = Some template
   \<and> length (heap w) \<le> length (heap w')
   \<and> (\<forall>a < length (heap w). heap w' ! a = heap w ! a)
   \<and> (\<exists>js. sent_messages (trace w') = sent_messages (trace w) @ map (job_message self) js
          \<and> length js \<le> length scenes
          \<and> map Inr js =
            map (\<lambda>s. workflow_for template ''Prompt_Input_Node'' (visual_prompt s))
              (take (length js) scenes))"
proof (induction scenes arbitrary: w acc)
  case Nil
  then show ?case by simp
next
  case (Cons s scenes)
  let ?T = "''Prompt_Input_Node''"
  obtain r1 w1 where g: "generate_clip_for_scene E self w (visual_prompt s) ?T = (r1, w1)"
    by (cases "generate_clip_for_scene E self w (visual_prompt s) ?T")
  note iso = generate_isolated[OF Cons.prems(1) g]
  show ?case
  proof (cases "returned r1")
    case False
    then have e: "w' = w1"
      using Cons.prems(2) g by (cases r1) auto
    from iso(4) show ?thesis
    proof
      assume "sent_messages (trace w1) = sent_messages (trace w) \<and> \<not> returned r1"
      then have "sent_messages (trace w') = sent_messages (trace w) @ map (job_message self) []"
        using e by simp
      with iso(1,2,3) e show ?thesis by (intro conjI exI[of _ "[]"]) simp_all
    next
      assume "\<exists>j. workflow_for template ?T (visual_prompt s) = Inr j
              \<and> sent_messages (trace w1) = sent_messages (trace w) @ [job_message self j]"
      then obtain j where j: "workflow_for template ?T (visual_prompt s) = Inr j"
        "sent_messages (trace w1) = sent_messages (trace w) @ [job_message self j]"
        by blast
      with iso(1,2,3) e show ?thesis by (intro conjI exI[of _ "[j]"]) simp_all
    qed
  next
    case True
    then obtain c where c: "r1 = Val c" by (cases r1) auto
    with iso(4) obtain j where j: "workflow_for template ?T (visual_prompt s) = Inr j"
      "sent_messages (trace w1) = sent_messages (trace w) @ [job_message self j]"
      by auto
    obtain acc' where rest: "collect_clips E self w1 scenes acc' = (r, w')"
      using Cons.prems(2) g c by (cases c) auto
    from Cons.IH[OF iso(1) rest] obtain js where
      ih: "dumps (heap w') (base_workflow self) = Some template"
      "length (heap w1) \<le> length (heap w')"
      "\<forall>a < length (heap w1). heap w' ! a = heap w1 ! a"
      "sent_messages (trace w') = sent_messages (trace w1) @ map (job_message self) js"
      "length js \<le> length scenes"
      "map Inr js = map (\<lambda>s. workflow_for template ?T (visual_prompt s)) (take (length js) scenes)"
      by blast
    from ih(2,3) iso(2,3) have fr: "length (heap w) \<le> length (heap w')"
      "\<forall>a < length (heap w). heap w' ! a = heap w ! a"
      by auto
    from ih(4,5,6) j ih(1) fr show ?thesis
      by (intro conjI exI[of _ "j # js"]) simp_all
  qed
qed


text \<open>The generator built by the constructor holds the document of the workflow file.\<close>

lemma init_template:
  "init comfyui_address cid (Doc j) w = (Val self, w') \<Longrightarrow>
   dumps (heap w') (base_workflow self) = Some j"
  by (auto simp: init_def split: prod.splits dest: loads_then_dumps)

section \<open>The claims of the specification\<close>

subsection \<open>The coordinator\<close>







text \<open>
  Claim C3. When the planner yields no scene data or an empty scene list,
  \<open>create_chapter_video\<close> returns \<open>None\<close> and the only thing that left the process is
  the request to the language model: no websocket connection, no message, no download.
\<close>

theorem no_scenes_no_render_job:
  assumes "fst (split_chapter_into_scenes E w chapter_text) = Val None
           \<or> fst (split_chapter_into_scenes E w chapter_text) = Val (Some [])"
  shows "create_chapter_video E self w chapter_text output_filename =
           (Val None, say (GenerateContent chapter_text) w)
         \<and> filter is_render_event
             (trace (snd (create_chapter_video E self w chapter_text output_filename))) =
           filter is_render_event (trace w)"
proof -
  have sp: "split_chapter_into_scenes E w chapter_text =
            (fst (split_chapter_into_scenes E w chapter_text), say (GenerateContent chapter_text) w)"
    using split_world[of E w chapter_text] by (simp add: prod_eq_iff)
  from assms have "create_chapter_video E self w chapter_text output_filename =
           (Val None, say (GenerateContent chapter_text) w)"
    unfolding create_chapter_video_def by (subst sp, auto)+
  then show ?thesis
    by (simp add: say_def)
qed

theorem no_scenes_no_render_job_witness:
  "create_chapter_video demo_env demo_self demo_world [] ''out'' =
     (Val None, say (GenerateContent []) demo_world)
   \<and> filter is_render_event
       (trace (snd (create_chapter_video demo_env demo_self demo_world [] ''out''))) =
     filter is_render_event (trace demo_world)"
proof -
  have h: "fst (split_chapter_into_scenes demo_env demo_world []) = Val None
           \<or> fst (split_chapter_into_scenes demo_env demo_world []) = Val (Some [])"
    by code_simp
  show ?thesis
    by (rule no_scenes_no_render_job[OF h])
qed




text \<open>
  Claim C10. When the request to the language model or the validation of its answer
  raises, \<open>split_chapter_into_scenes\<close> returns \<open>None\<close> instead of raising, and
  \<open>create_chapter_video\<close> returns \<open>None\<close> for that chapter text.
\<close>

theorem planner_failure_gives_none:
  assumes "(\<exists>e. generate_content E (trace w) chapter_text = Inl e)
           \<or> (\<exists>text e. generate_content E (trace w) chapter_text = Inr text
                \<and> model_validate_json E text = Inl e)"
  shows "fst (split_chapter_into_scenes E w chapter_text) = Val None
         \<and> fst (create_chapter_video E self w chapter_text output_filename) = Val None"
proof -
  have sp: "split_chapter_into_scenes E w chapter_text =
            (Val None, say (GenerateContent chapter_text) w)"
    using assms by (auto simp: split_chapter_into_scenes_def Let_def)
  then show ?thesis
    by (simp add: create_chapter_video_def)
qed

theorem planner_failure_gives_none_witness:
  "(fst (split_chapter_into_scenes demo_env demo_world ''?'') = Val None
    \<and> fst (create_chapter_video demo_env demo_self demo_world ''?'' ''out'') = Val None)
   \<and> (fst (split_chapter_into_scenes demo_env demo_world ''{'') = Val None
    \<and> fst (create_chapter_video demo_env demo_self demo_world ''{'' ''out'') = Val None)"
proof -
  have h1: "(\<exists>e. generate_content demo_env (trace demo_world) ''?'' = Inl e)
           \<or> (\<exists>text e. generate_content demo_env (trace demo_world) ''?'' = Inr text
                \<and> model_validate_json demo_env text = Inl e)"
    by (simp add: demo_env_def)
  have h2: "(\<exists>e. generate_content demo_env (trace demo_world) ''{'' = Inl e)
           \<or> (\<exists>text e. generate_content demo_env (trace demo_world) ''{'' = Inr text
                \<and> model_validate_json demo_env text = Inl e)"
    by (simp add: demo_env_def)
  show ?thesis
    using planner_failure_gives_none[OF h1, of demo_self "''out''"]
      planner_failure_gives_none[OF h2, of demo_self "''out''"]
    by simp
qed

subsection \<open>The stitcher\<close>

text \<open>
  Claim C7 says that when the stitch raises, no input clip file is deleted. That fails
  for a raise from the clean-up loop of line 132, which runs after the final video
  was written and deletes clip by clip. In the example the same path is listed twice:
  the first unlink deletes the clip, the second raises \<open>FileNotFoundError\<close>, and
  the stitch has raised with its input deleted. A run of \<open>create_chapter_video\<close>
  gets there when the render server names the clips of two scenes alike.
\<close>

theorem cleanup_raise_after_delete_counterexample:
  "fst (stitch_clips_into_video demo_env demo_clips_world
          [''temp_clips/a.mp4'', ''temp_clips/a.mp4''] ''out'') = Raise (Exn ''FileNotFoundError'')
   \<and> file_at demo_clips_world ''temp_clips/a.mp4'' = Some ''video''
   \<and> file_at (snd (stitch_clips_into_video demo_env demo_clips_world
          [''temp_clips/a.mp4'', ''temp_clips/a.mp4''] ''out'')) ''temp_clips/a.mp4'' = None
   \<and> file_at (snd (stitch_clips_into_video demo_env demo_clips_world
          [''temp_clips/a.mp4'', ''temp_clips/a.mp4''] ''out'')) ''final_videos/out.mp4'' =
       Some ''videovideo''
   \<and> fst (create_chapter_video demo_env demo_self demo_world ''aa'' ''out'') =
       Raise (Exn ''FileNotFoundError'')
   \<and> stitch_calls (trace (snd (create_chapter_video demo_env demo_self demo_world ''aa'' ''out''))) =
       [[''temp_clips/a.mp4'', ''temp_clips/a.mp4'']]
   \<and> file_at (snd (create_chapter_video demo_env demo_self demo_world ''aa'' ''out''))
        ''temp_clips/a.mp4'' = None"
  by code_simp

text \<open>
  Claim C7 as amended. When \<open>_stitch_clips_into_video\<close> returns, no input path
  names a file any more. When decoding, concatenation, the creation of the output
  directory or encoding raises (lines 120--130), the stitcher raises the same
  exception before line 132 is reached: every file that existed still exists, and no
  file but the one the output path leads to has changed. When these lines do not
  raise and the stitcher raises all the same, the exception is that of one
  \<open>unlink\<close> of line 132, and the clips listed before the failing one are deleted.
\<close>

theorem clips_deleted_only_after_encoder_returns:
  "(fst (stitch_clips_into_video E w clip_paths output_filename) = Val final_path \<longrightarrow>
      (\<forall>q \<in> set clip_paths.
         file_at (snd (stitch_clips_into_video E w clip_paths output_filename)) q = None))
   \<and> (fst (encode_video E w clip_paths output_filename) = Raise x \<longrightarrow>
      fst (stitch_clips_into_video E w clip_paths output_filename) = Raise x
      \<and> (\<forall>q. file_at w q \<noteq> None \<longrightarrow>
            file_at (snd (stitch_clips_into_video E w clip_paths output_filename)) q \<noteq> None)
      \<and> (\<forall>d. files (snd (stitch_clips_into_video E w clip_paths output_filename)) d \<noteq> files w d \<longrightarrow>
            locate (snd (stitch_clips_into_video E w clip_paths output_filename))
              (path_join ''final_videos'' (output_filename @ ''.mp4'')) = Inr d))
   \<and> ((\<forall>y. fst (encode_video E w clip_paths output_filename) \<noteq> Raise y)
      \<and> fst (stitch_clips_into_video E w clip_paths output_filename) = Raise x \<longrightarrow>
      (\<exists>deleted q rest. clip_paths = deleted @ q # rest
         \<and> (\<forall>p \<in> set deleted.
               file_at (snd (stitch_clips_into_video E w clip_paths output_filename)) p = None)
         \<and> unlink q (snd (stitch_clips_into_video E w clip_paths output_filename)) = Inl x))"
proof -
  obtain r1 w1 where e: "encode_video E w clip_paths output_filename = (r1, w1)"
    by (cases "encode_video E w clip_paths output_filename")
  obtain r2 w2 where u: "unlink_all clip_paths w1 = (r2, w2)"
    by (cases "unlink_all clip_paths w1")
  have a: "fst (stitch_clips_into_video E w clip_paths output_filename) = Val final_path \<longrightarrow>
      (\<forall>q \<in> set clip_paths.
         file_at (snd (stitch_clips_into_video E w clip_paths output_filename)) q = None)"
    using e u unlink_all_removes[of clip_paths w1 _ w2]
    by (auto simp: stitch_clips_into_video_def split: res.splits)
  have b: "fst (encode_video E w clip_paths output_filename) = Raise x \<longrightarrow>
      stitch_clips_into_video E w clip_paths output_filename = (Raise x, w1)"
    using e by (auto simp: stitch_clips_into_video_def)
  have c: "file_at w q \<noteq> None \<longrightarrow> file_at w1 q \<noteq> None" for q
    using encode_video_files[OF e] by blast
  have d: "files w1 d \<noteq> files w d \<longrightarrow>
           locate w1 (path_join ''final_videos'' (output_filename @ ''.mp4'')) = Inr d" for d
    using encode_video_files[OF e] by blast
  have f: "(\<forall>y. fst (encode_video E w clip_paths output_filename) \<noteq> Raise y)
      \<and> fst (stitch_clips_into_video E w clip_paths output_filename) = Raise x \<longrightarrow>
      (\<exists>deleted q rest. clip_paths = deleted @ q # rest
         \<and> (\<forall>p \<in> set deleted.
               file_at (snd (stitch_clips_into_video E w clip_paths output_filename)) p = None)
         \<and> unlink q (snd (stitch_clips_into_video E w clip_paths output_filename)) = Inl x)"
  proof
    assume h: "(\<forall>y. fst (encode_video E w clip_paths output_filename) \<noteq> Raise y)
      \<and> fst (stitch_clips_into_video E w clip_paths output_filename) = Raise x"
    with e u have r: "r2 = Raise x" and s: "stitch_clips_into_video E w clip_paths output_filename = (Raise x, w2)"
      by (auto simp: stitch_clips_into_video_def split: res.splits)
    from unlink_all_raise[of clip_paths w1 x w2] u r obtain as q bs where
      sp: "clip_paths = as @ q # bs" "unlink_all as w1 = (Val (), w2)" "unlink q w2 = Inl x"
      by blast
    have "\<forall>p \<in> set as. file_at w2 p = None"
      using unlink_all_removes[OF sp(2)] by blast
    with sp s show "\<exists>deleted q rest. clip_paths = deleted @ q # rest
         \<and> (\<forall>p \<in> set deleted.
               file_at (snd (stitch_clips_into_video E w clip_paths output_filename)) p = None)
         \<and> unlink q (snd (stitch_clips_into_video E w clip_paths output_filename)) = Inl x"
      by auto
  qed
  have abcd: "(fst (stitch_clips_into_video E w clip_paths output_filename) = Val final_path \<longrightarrow>
      (\<forall>q \<in> set clip_paths.
         file_at (snd (stitch_clips_into_video E w clip_paths output_filename)) q = None))
   \<and> (fst (encode_video E w clip_paths output_filename) = Raise x \<longrightarrow>
      fst (stitch_clips_into_video E w clip_paths output_filename) = Raise x
      \<and> (\<forall>q. file_at w q \<noteq> None \<longrightarrow>
            file_at (snd (stitch_clips_into_video E w clip_paths output_filename)) q \<noteq> None)
      \<and> (\<forall>d. files (snd (stitch_clips_into_video E w clip_paths output_filename)) d \<noteq> files w d \<longrightarrow>
            locate (snd (stitch_clips_into_video E w clip_paths output_filename))
              (path_join ''final_videos'' (output_filename @ ''.mp4'')) = Inr d))"
    using a b c d e by auto
  from abcd have first: "fst (stitch_clips_into_video E w clip_paths output_filename) = Val final_path \<longrightarrow>
      (\<forall>q \<in> set clip_paths.
         file_at (snd (stitch_clips_into_video E w clip_paths output_filename)) q = None)"
    by (rule conjunct1)
  from abcd have second: "fst (encode_video E w clip_paths output_filename) = Raise x \<longrightarrow>
      fst (stitch_clips_into_video E w clip_paths output_filename) = Raise x
      \<and> (\<forall>q. file_at w q \<noteq> None \<longrightarrow>
            file_at (snd (stitch_clips_into_video E w clip_paths output_filename)) q \<noteq> None)
      \<and> (\<forall>d. files (snd (stitch_clips_into_video E w clip_paths output_filename)) d \<noteq> files w d \<longrightarrow>
            locate (snd (stitch_clips_into_video E w clip_paths output_filename))
              (path_join ''final_videos'' (output_filename @ ''.mp4'')) = Inr d)"
    by (rule conjunct2)
  show ?thesis
    by (rule conjI[OF first conjI[OF second f]])
qed

text \<open>
  Two clips on disk. With the output \<open>out\<close> the stitch returns and both are gone;
  with the output \<open>silent\<close> the encoder returns without having written a file, and
  both are gone all the same; with the output \<open>broken\<close> the encoder raises and both
  are still there.
\<close>

theorem clips_deleted_only_after_encoder_returns_witness:
  "(fst (stitch_clips_into_video demo_env demo_clips_world
           [''temp_clips/a.mp4'', ''temp_clips/c.mp4''] ''out'') = Val ''final_videos/out.mp4''
    \<and> file_at (snd (stitch_clips_into_video demo_env demo_clips_world
           [''temp_clips/a.mp4'', ''temp_clips/c.mp4''] ''out'')) ''temp_clips/a.mp4'' = None
    \<and> file_at (snd (stitch_clips_into_video demo_env demo_clips_world
           [''temp_clips/a.mp4'', ''temp_clips/c.mp4''] ''out'')) ''temp_clips/c.mp4'' = None)
   \<and> (fst (stitch_clips_into_video demo_env demo_clips_world
           [''temp_clips/a.mp4'', ''temp_clips/c.mp4''] ''silent'') = Val ''final_videos/silent.mp4''
    \<and> file_at (snd (stitch_clips_into_video demo_env demo_clips_world
           [''temp_clips/a.mp4'', ''temp_clips/c.mp4''] ''silent'')) ''final_videos/silent.mp4'' = None
    \<and> file_at (snd (stitch_clips_into_video demo_env demo_clips_world
           [''temp_clips/a.mp4'', ''temp_clips/c.mp4''] ''silent'')) ''temp_clips/a.mp4'' = None
    \<and> file_at (snd (stitch_clips_into_video demo_env demo_clips_world
           [''temp_clips/a.mp4'', ''temp_clips/c.mp4''] ''silent'')) ''temp_clips/c.mp4'' = None)
   \<and> (fst (stitch_clips_into_video demo_env demo_clips_world
           [''temp_clips/a.mp4'', ''temp_clips/c.mp4''] ''broken'') = Raise (Exn ''OSError'')
    \<and> file_at (snd (stitch_clips_into_video demo_env demo_clips_world
           [''temp_clips/a.mp4'', ''temp_clips/c.mp4''] ''broken'')) ''temp_clips/a.mp4'' \<noteq> None
    \<and> file_at (snd (stitch_clips_into_video demo_env demo_clips_world
           [''temp_clips/a.mp4'', ''temp_clips/c.mp4''] ''broken'')) ''temp_clips/c.mp4'' \<noteq> None)
   \<and> (\<exists>deleted q rest. [''temp_clips/c.mp4'', ''temp_clips/a.mp4'', ''temp_clips/c.mp4''] =
          deleted @ q # rest
        \<and> (\<forall>p \<in> set deleted.
              file_at (snd (stitch_clips_into_video demo_env demo_clips_world
                [''temp_clips/c.mp4'', ''temp_clips/a.mp4'', ''temp_clips/c.mp4''] ''out'')) p = None)
        \<and> unlink q (snd (stitch_clips_into_video demo_env demo_clips_world
                [''temp_clips/c.mp4'', ''temp_clips/a.mp4'', ''temp_clips/c.mp4''] ''out'')) =
            Inl (Exn ''FileNotFoundError''))"
proof -
  let ?ps = "[''temp_clips/a.mp4'', ''temp_clips/c.mp4'']"
  let ?qs = "[''temp_clips/c.mp4'', ''temp_clips/a.mp4'', ''temp_clips/c.mp4'']"
  have enc: "fst (encode_video demo_env demo_clips_world ?qs ''out'') = Val ''final_videos/out.mp4''"
    by code_simp
  have late_raise: "fst (stitch_clips_into_video demo_env demo_clips_world ?qs ''out'') =
        Raise (Exn ''FileNotFoundError'')"
    by code_simp
  from enc have no_raise: "\<forall>y. fst (encode_video demo_env demo_clips_world ?qs ''out'') \<noteq> Raise y"
    by simp
  have late: "\<exists>deleted q rest. ?qs = deleted @ q # rest
        \<and> (\<forall>p \<in> set deleted.
              file_at (snd (stitch_clips_into_video demo_env demo_clips_world ?qs ''out'')) p = None)
        \<and> unlink q (snd (stitch_clips_into_video demo_env demo_clips_world ?qs ''out'')) =
            Inl (Exn ''FileNotFoundError'')"
    using clips_deleted_only_after_encoder_returns
            [of demo_env demo_clips_world ?qs "''out''" "''final_videos/out.mp4''"
               "Exn ''FileNotFoundError''"] no_raise late_raise
    by blast
  have ok: "fst (stitch_clips_into_video demo_env demo_clips_world ?ps ''out'') =
            Val ''final_videos/out.mp4''"
    by code_simp
  have quiet: "fst (stitch_clips_into_video demo_env demo_clips_world ?ps ''silent'') =
            Val ''final_videos/silent.mp4''"
    by code_simp
  have nofile: "file_at (snd (stitch_clips_into_video demo_env demo_clips_world ?ps ''silent''))
            ''final_videos/silent.mp4'' = None"
    by code_simp
  have bad: "fst (encode_video demo_env demo_clips_world ?ps ''broken'') = Raise (Exn ''OSError'')"
    by code_simp
  have fa: "file_at demo_clips_world ''temp_clips/a.mp4'' \<noteq> None"
    by code_simp
  have fc: "file_at demo_clips_world ''temp_clips/c.mp4'' \<noteq> None"
    by code_simp
  have gone: "\<forall>q \<in> set ?ps.
      file_at (snd (stitch_clips_into_video demo_env demo_clips_world ?ps ''out'')) q = None"
    using clips_deleted_only_after_encoder_returns
            [of demo_env demo_clips_world ?ps "''out''" "''final_videos/out.mp4''" "Exn ''OSError''"] ok
    by blast
  have gone2: "\<forall>q \<in> set ?ps.
      file_at (snd (stitch_clips_into_video demo_env demo_clips_world ?ps ''silent'')) q = None"
    using clips_deleted_only_after_encoder_returns
            [of demo_env demo_clips_world ?ps "''silent''" "''final_videos/silent.mp4''" "Exn ''OSError''"]
          quiet
    by blast
  have kept: "fst (stitch_clips_into_video demo_env demo_clips_world ?ps ''broken'') =
                Raise (Exn ''OSError'')
      \<and> (\<forall>q. file_at demo_clips_world q \<noteq> None \<longrightarrow>
            file_at (snd (stitch_clips_into_video demo_env demo_clips_world ?ps ''broken'')) q \<noteq> None)"
    using clips_deleted_only_after_encoder_returns
            [of demo_env demo_clips_world ?ps "''broken''" "''final_videos/out.mp4''" "Exn ''OSError''"]
          bad
    by blast
  have first: "(fst (stitch_clips_into_video demo_env demo_clips_world ?ps ''out'') =
        Val ''final_videos/out.mp4''
    \<and> file_at (snd (stitch_clips_into_video demo_env demo_clips_world ?ps ''out''))
        ''temp_clips/a.mp4'' = None
    \<and> file_at (snd (stitch_clips_into_video demo_env demo_clips_world ?ps ''out''))
        ''temp_clips/c.mp4'' = None)
   \<and> (fst (stitch_clips_into_video demo_env demo_clips_world ?ps ''silent'') =
        Val ''final_videos/silent.mp4''
    \<and> file_at (snd (stitch_clips_into_video demo_env demo_clips_world ?ps ''silent''))
        ''final_videos/silent.mp4'' = None
    \<and> file_at (snd (stitch_clips_into_video demo_env demo_clips_world ?ps ''silent''))
        ''temp_clips/a.mp4'' = None
    \<and> file_at (snd (stitch_clips_into_video demo_env demo_clips_world ?ps ''silent''))
        ''temp_clips/c.mp4'' = None)
   \<and> (fst (stitch_clips_into_video demo_env demo_clips_world ?ps ''broken'') =
        Raise (Exn ''OSError'')
    \<and> file_at (snd (stitch_clips_into_video demo_env demo_clips_world ?ps ''broken''))
        ''temp_clips/a.mp4'' \<noteq> None
    \<and> file_at (snd (stitch_clips_into_video demo_env demo_clips_world ?ps ''broken''))
        ''temp_clips/c.mp4'' \<noteq> None)"
    using gone gone2 kept fa fc ok quiet nofile by simp
  have rest: "(fst (stitch_clips_into_video demo_env demo_clips_world ?ps ''silent'') =
        Val ''final_videos/silent.mp4''
    \<and> file_at (snd (stitch_clips_into_video demo_env demo_clips_world ?ps ''silent''))
        ''final_videos/silent.mp4'' = None
    \<and> file_at (snd (stitch_clips_into_video demo_env demo_clips_world ?ps ''silent''))
        ''temp_clips/a.mp4'' = None
    \<and> file_at (snd (stitch_clips_into_video demo_env demo_clips_world ?ps ''silent''))
        ''temp_clips/c.mp4'' = None)
   \<and> (fst (stitch_clips_into_video demo_env demo_clips_world ?ps ''broken'') =
        Raise (Exn ''OSError'')
    \<and> file_at (snd (stitch_clips_into_video demo_env demo_clips_world ?ps ''broken''))
        ''temp_clips/a.mp4'' \<noteq> None
    \<and> file_at (snd (stitch_clips_into_video demo_env demo_clips_world ?ps ''broken''))
        ''temp_clips/c.mp4'' \<noteq> None)"
    using first by (rule conjunct2)
  show ?thesis
    by (rule conjI[OF conjunct1[OF first] conjI[OF conjunct1[OF rest] conjI[OF conjunct2[OF rest] late]]])
qed


text \<open>
  Claim C8 says that the stitcher, called with an empty list, fails with a
  \<open>StitchError\<close>. The function has no test for the empty list and the source
  defines no such exception: the empty list goes to \<open>concatenate_videoclips\<close> of
  moviepy, and in the example (where that call raises \<open>ValueError\<close>, as moviepy 1.x
  does on an empty list) this \<open>ValueError\<close> is what the caller gets.
\<close>

theorem empty_stitch_counterexample:
  "fst (stitch_clips_into_video demo_env demo_world [] ''out'') = Raise (Exn ''ValueError'')"
  by code_simp

text \<open>
  Claim C8 as amended. The coordinator never calls the stitcher with an empty list.
  The stitcher itself does not check its argument: called with an empty list it hands
  the empty list to \<open>concatenate_videoclips\<close>, and what that call raises leaves the
  stitcher unchanged, with nothing written or deleted.
\<close>

theorem coordinator_never_stitches_empty_list:
  "(\<exists>new. stitch_calls (trace (snd (create_chapter_video E self w chapter_text output_filename))) =
           stitch_calls (trace w) @ new \<and> [] \<notin> set new)
   \<and> (concatenate_videoclips E [] = Inl x \<longrightarrow>
        stitch_clips_into_video E w [] output_filename =
          (Raise x, say (StitchCalled [] output_filename) w))"
  using create_stitch_calls_nonempty[of E self w chapter_text output_filename]
  by (auto simp: stitch_clips_into_video_def encode_video_def Let_def)

theorem coordinator_never_stitches_empty_list_witness:
  "(\<exists>new. stitch_calls (trace (snd (create_chapter_video demo_env demo_self demo_world ''abc'' ''out''))) =
           stitch_calls (trace demo_world) @ new \<and> [] \<notin> set new)
   \<and> stitch_clips_into_video demo_env demo_world [] ''out'' =
          (Raise (Exn ''ValueError''), say (StitchCalled [] ''out'') demo_world)"
proof -
  have h: "concatenate_videoclips demo_env [] = Inl (Exn ''ValueError'')"
    by (simp add: demo_env_def)
  show ?thesis
    using coordinator_never_stitches_empty_list
            [of demo_env demo_self demo_world "''abc''" "''out''" "Exn ''ValueError''"] h
    by simp
qed


subsection \<open>The render job client\<close>

text \<open>
  Claim C6 says that a download answered with a non-success status fails with a
  \<open>DownloadError\<close>. It does not: in the example the file view answers 500 for
  the clip of the scene, and \<open>_generate_clip_for_scene\<close> returns \<open>None\<close> without
  raising anything.
\<close>

theorem failed_download_counterexample:
  "fst (generate_clip_for_scene demo_env demo_self demo_world ''b'' ''Prompt_Input_Node'') = Val None
   \<and> last (trace (snd (generate_clip_for_scene demo_env demo_self demo_world ''b''
        ''Prompt_Input_Node''))) = HttpGet (ViewUrl ''127.0.0.1:8188'' (JStr ''out'') (JStr ''b.mp4''))
   \<and> map_sum id status_code
        (requests_get demo_env [] (ViewUrl ''127.0.0.1:8188'' (JStr ''out'') (JStr ''b.mp4''))) =
      Inr 500"
  by code_simp


text \<open>
  Claim C6 as amended. A response whose status is not 200 raises nothing and writes
  nothing: when the manifest entry of an output node is well formed and its download
  is answered with another status, the loop of lines 104--116 goes on with the
  remaining output nodes, in the world that differs by the request alone. When the
  file view answers no request with 200, the loop ends with \<open>None\<close> (or with the
  \<open>KeyError\<close>, \<open>TypeError\<close>, \<open>IndexError\<close> or \<open>AttributeError\<close>
  of a malformed output manifest), \<open>_generate_clip_for_scene\<close> never returns a
  path, and no file or directory is created.
\<close>

theorem failed_download_is_passed_over:
  "(py_getitem outputs node_id = Inr node_out
    \<and> py_contains ''videos'' node_out = Inr True
    \<and> py_getitem node_out (JStr ''videos'') = Inr videos
    \<and> py_getitem videos (JInt 0) = Inr video_data
    \<and> py_get video_data ''subfolder'' (JStr []) = Inr subfolder
    \<and> py_getitem video_data (JStr ''filename'') = Inr filename
    \<and> requests_get E (trace w) (ViewUrl (server_address self) subfolder filename) = Inr response
    \<and> status_code response \<noteq> 200 \<longrightarrow>
    scan_outputs E self w outputs (node_id # ids) =
      scan_outputs E self (say (HttpGet (ViewUrl (server_address self) subfolder filename)) w)
        outputs ids)
   \<and> ((\<forall>tr url. \<exists>resp. requests_get E tr url = Inr resp \<and> status_code resp \<noteq> 200) \<longrightarrow>
      (fst (scan_outputs E self w outputs ids) = Val None
       \<or> (\<exists>e. fst (scan_outputs E self w outputs ids) = Raise e \<and> lookup_error e))
      \<and> files (snd (scan_outputs E self w outputs ids)) = files w
      \<and> dirs (snd (scan_outputs E self w outputs ids)) = dirs w
      \<and> (\<forall>q. fst (generate_clip_for_scene E self w scene_prompt title) \<noteq> Val (Some q))
      \<and> files (snd (generate_clip_for_scene E self w scene_prompt title)) = files w
      \<and> dirs (snd (generate_clip_for_scene E self w scene_prompt title)) = dirs w)"
proof -
  have step: "py_getitem outputs node_id = Inr node_out
    \<and> py_contains ''videos'' node_out = Inr True
    \<and> py_getitem node_out (JStr ''videos'') = Inr videos
    \<and> py_getitem videos (JInt 0) = Inr video_data
    \<and> py_get video_data ''subfolder'' (JStr []) = Inr subfolder
    \<and> py_getitem video_data (JStr ''filename'') = Inr filename
    \<and> requests_get E (trace w) (ViewUrl (server_address self) subfolder filename) = Inr response
    \<and> status_code response \<noteq> 200 \<longrightarrow>
    scan_outputs E self w outputs (node_id # ids) =
      scan_outputs E self (say (HttpGet (ViewUrl (server_address self) subfolder filename)) w)
        outputs ids"
    by (simp add: Let_def)
  obtain r w' where s: "scan_outputs E self w outputs ids = (r, w')"
    by (cases "scan_outputs E self w outputs ids")
  obtain r2 w2 where g: "generate_clip_for_scene E self w scene_prompt title = (r2, w2)"
    by (cases "generate_clip_for_scene E self w scene_prompt title")
  have all: "(\<forall>tr url. \<exists>resp. requests_get E tr url = Inr resp \<and> status_code resp \<noteq> 200) \<longrightarrow>
      (fst (scan_outputs E self w outputs ids) = Val None
       \<or> (\<exists>e. fst (scan_outputs E self w outputs ids) = Raise e \<and> lookup_error e))
      \<and> files (snd (scan_outputs E self w outputs ids)) = files w
      \<and> dirs (snd (scan_outputs E self w outputs ids)) = dirs w
      \<and> (\<forall>q. fst (generate_clip_for_scene E self w scene_prompt title) \<noteq> Val (Some q))
      \<and> files (snd (generate_clip_for_scene E self w scene_prompt title)) = files w
      \<and> dirs (snd (generate_clip_for_scene E self w scene_prompt title)) = dirs w"
  proof
    assume no200: "\<forall>tr url. \<exists>resp. requests_get E tr url = Inr resp \<and> status_code resp \<noteq> 200"
    from scan_outputs_no_200[OF no200 s] generate_no_200[OF no200 g]
      generate_no_200_dirs[OF no200 g] s g
    show "(fst (scan_outputs E self w outputs ids) = Val None
       \<or> (\<exists>e. fst (scan_outputs E self w outputs ids) = Raise e \<and> lookup_error e))
      \<and> files (snd (scan_outputs E self w outputs ids)) = files w
      \<and> dirs (snd (scan_outputs E self w outputs ids)) = dirs w
      \<and> (\<forall>q. fst (generate_clip_for_scene E self w scene_prompt title) \<noteq> Val (Some q))
      \<and> files (snd (generate_clip_for_scene E self w scene_prompt title)) = files w
      \<and> dirs (snd (generate_clip_for_scene E self w scene_prompt title)) = dirs w"
      by simp
  qed
  from step all show ?thesis
    by (rule conjI)
qed

text \<open>
  A manifest with two video nodes, the first download answered with 500 and the
  second with 200: the first is passed over and the clip of the second is stored and
  returned. And a file view that answers every request with 500: the job returns
  \<open>None\<close> and no file appears.
\<close>

theorem failed_download_is_passed_over_witness:
  "scan_outputs demo_env demo_self demo_world demo_manifest [JStr ''8'', JStr ''9''] =
     scan_outputs demo_env demo_self
       (say (HttpGet (ViewUrl ''127.0.0.1:8188'' (JStr []) (JStr ''b.mp4''))) demo_world)
       demo_manifest [JStr ''9'']
   \<and> fst (scan_outputs demo_env demo_self demo_world demo_manifest [JStr ''8'', JStr ''9'']) =
       Val (Some ''temp_clips/a.mp4'')
   \<and> file_at (snd (scan_outputs demo_env demo_self demo_world demo_manifest
        [JStr ''8'', JStr ''9''])) ''temp_clips/a.mp4'' = Some ''video''
   \<and> fst (generate_clip_for_scene demo_env_down demo_self demo_world ''a'' ''Prompt_Input_Node'') =
       Val None
   \<and> files (snd (generate_clip_for_scene demo_env_down demo_self demo_world ''a''
        ''Prompt_Input_Node'')) = files demo_world"
proof -
  let ?url = "ViewUrl ''127.0.0.1:8188'' (JStr []) (JStr ''b.mp4'')"
  let ?node = "JObj [(''videos'', JArr [JObj [(''filename'', JStr ''b.mp4'')]])]"
  have m: "py_getitem demo_manifest (JStr ''8'') = Inr ?node
    \<and> py_contains ''videos'' ?node = Inr True
    \<and> py_getitem ?node (JStr ''videos'') = Inr (JArr [JObj [(''filename'', JStr ''b.mp4'')]])
    \<and> py_getitem (JArr [JObj [(''filename'', JStr ''b.mp4'')]]) (JInt 0) =
        Inr (JObj [(''filename'', JStr ''b.mp4'')])
    \<and> py_get (JObj [(''filename'', JStr ''b.mp4'')]) ''subfolder'' (JStr []) = Inr (JStr [])
    \<and> py_getitem (JObj [(''filename'', JStr ''b.mp4'')]) (JStr ''filename'') = Inr (JStr ''b.mp4'')
    \<and> requests_get demo_env (trace demo_world) (ViewUrl (server_address demo_self) (JStr [])
          (JStr ''b.mp4'')) = Inr \<lparr>status_code = 500, content = Inr []\<rparr>
    \<and> status_code \<lparr>status_code = 500, content = Inr []\<rparr> \<noteq> 200"
    by code_simp
  have a: "server_address demo_self = ''127.0.0.1:8188''"
    by (simp add: demo_self_def)
  have h: "\<forall>tr url. \<exists>resp. requests_get demo_env_down tr url = Inr resp \<and> status_code resp \<noteq> 200"
    by (simp add: demo_env_down_def)
  have second: "fst (scan_outputs demo_env demo_self (say (HttpGet ?url) demo_world)
                  demo_manifest [JStr ''9'']) = Val (Some ''temp_clips/a.mp4'')"
    by code_simp
  have stored: "file_at (snd (scan_outputs demo_env demo_self (say (HttpGet ?url) demo_world)
                  demo_manifest [JStr ''9''])) ''temp_clips/a.mp4'' = Some ''video''"
    by code_simp
  have g: "fst (generate_clip_for_scene demo_env_down demo_self demo_world ''a''
             ''Prompt_Input_Node'') = Val None"
    by code_simp
  have eq: "scan_outputs demo_env demo_self demo_world demo_manifest [JStr ''8'', JStr ''9''] =
            scan_outputs demo_env demo_self
              (say (HttpGet (ViewUrl (server_address demo_self) (JStr []) (JStr ''b.mp4''))) demo_world)
              demo_manifest [JStr ''9'']"
    using failed_download_is_passed_over
            [where E = demo_env and self = demo_self and w = demo_world
               and outputs = demo_manifest and node_id = "JStr ''8''" and node_out = ?node
               and videos = "JArr [JObj [(''filename'', JStr ''b.mp4'')]]"
               and video_data = "JObj [(''filename'', JStr ''b.mp4'')]"
               and subfolder = "JStr []" and filename = "JStr ''b.mp4''"
               and response = "\<lparr>status_code = 500, content = Inr []\<rparr>"
               and ids = "[JStr ''9'']"] m
    by blast
  have down: "files (snd (generate_clip_for_scene demo_env_down demo_self demo_world ''a''
                ''Prompt_Input_Node'')) = files demo_world"
    using failed_download_is_passed_over
            [where E = demo_env_down and self = demo_self and w = demo_world
               and scene_prompt = "''a''" and title = "''Prompt_Input_Node''"] h
    by blast
  show ?thesis
    unfolding eq a using second stored g down by blast
qed


text \<open>
  Claim C5 says that a template with no node titled as asked makes
  \<open>_generate_clip_for_scene\<close> raise a \<open>ConfigurationError\<close>. The source defines
  no such exception: line 99 raises the built-in \<open>ValueError\<close>, as the example
  with a template of two untitled or differently titled nodes shows.
\<close>

theorem missing_input_node_counterexample:
  "fst (generate_clip_for_scene demo_env demo_plain_self demo_plain_world ''a''
          ''Prompt_Input_Node'') = Raise (Exn ''ValueError'')
   \<and> fst (generate_clip_for_scene demo_env demo_plain_self demo_plain_world ''a''
          ''Prompt_Input_Node'') \<noteq> Raise (Exn ''ConfigurationError'')"
  by code_simp


text \<open>
  Claim C5 as amended. Let the template be a dictionary of nodes, every node a
  dictionary whose \<open>_meta\<close> entry, if it has one, is a dictionary without the title
  asked for. Then \<open>_generate_clip_for_scene\<close> raises \<open>ValueError\<close> and nothing
  has left the process: the trace is unchanged (no connection, no message, no download)
  and so are the files.
\<close>

theorem missing_input_node_raises_before_network:
  assumes "dumps (heap w) (base_workflow self) = Some (JObj nodes)"
    and "\<forall>kv \<in> set nodes. template_title_matches (snd kv) title = Inr False"
  shows "fst (generate_clip_for_scene E self w scene_prompt title) = Raise (Exn ''ValueError'')
         \<and> trace (snd (generate_clip_for_scene E self w scene_prompt title)) = trace w
         \<and> files (snd (generate_clip_for_scene E self w scene_prompt title)) = files w"
proof -
  from assms(2) have "template_find_node nodes title = Inr None"
    by (rule template_find_node_none)
  then have "workflow_for (JObj nodes) title scene_prompt = Inl (Exn ''ValueError'')"
    by (simp add: workflow_for_def)
  from generate_before_send[OF assms(1) this, of E] show ?thesis
    by simp
qed

theorem missing_input_node_raises_before_network_witness:
  "fst (generate_clip_for_scene demo_env demo_plain_self demo_plain_world ''a''
          ''Prompt_Input_Node'') = Raise (Exn ''ValueError'')
   \<and> trace (snd (generate_clip_for_scene demo_env demo_plain_self demo_plain_world ''a''
          ''Prompt_Input_Node'')) = []"
proof -
  let ?nodes = "[(''3'', JObj [(''inputs'', JObj [(''seed'', JInt 7)]),
                         (''_meta'', JObj [(''title'', JStr ''Sampler'')])]),
           (''4'', JObj [(''inputs'', JObj [(''ckpt_name'', JStr ''model'')])])]"
  have h1: "dumps (heap demo_plain_world) (base_workflow demo_plain_self) = Some (JObj ?nodes)"
    by code_simp
  have h2: "\<forall>kv \<in> set ?nodes. template_title_matches (snd kv) ''Prompt_Input_Node'' = Inr False"
    by simp
  have t0: "trace demo_plain_world = []"
    by (simp add: demo_plain_world_def)
  show ?thesis
    using missing_input_node_raises_before_network[OF h1 h2, of demo_env "''a''"] t0
    by simp
qed


text \<open>
  Claim C9. Let \<open>template\<close> be the JSON value of \<open>self.base_workflow\<close>. Every call
  of \<open>_generate_clip_for_scene\<close> leaves it unchanged, and changes no object that
  existed before the call: the prompt is written into the fresh copy only. In a run of
  the scene loop the message sent for the i-th scene carries \<open>workflow_for\<close> of the
  template and of that scene's own prompt, a value no other scene's prompt enters; and
  the template is unchanged after the run. The hypothesis holds for every generator
  the constructor builds, with the document of the workflow file as the template
  (lemma \<open>init_template\<close>), and the first conjunct keeps it true from call to call.
\<close>

theorem template_isolation:
  assumes "dumps (heap w) (base_workflow self) = Some template"
  shows "dumps (heap (snd (generate_clip_for_scene E self w scene_prompt title)))
           (base_workflow self) = Some template
         \<and> (\<forall>a < length (heap w).
               heap (snd (generate_clip_for_scene E self w scene_prompt title)) ! a = heap w ! a)
         \<and> dumps (heap (snd (collect_clips E self w scenes clip_paths)))
             (base_workflow self) = Some template
         \<and> (\<exists>js. sent_messages (trace (snd (collect_clips E self w scenes clip_paths))) =
                   sent_messages (trace w) @ map (job_message self) js
                \<and> length js \<le> length scenes
                \<and> map Inr js =
                  map (\<lambda>s. workflow_for template ''Prompt_Input_Node'' (visual_prompt s))
                    (take (length js) scenes))"
proof -
  obtain r1 w1 where g: "generate_clip_for_scene E self w scene_prompt title = (r1, w1)"
    by (cases "generate_clip_for_scene E self w scene_prompt title")
  obtain r2 w2 where c: "collect_clips E self w scenes clip_paths = (r2, w2)"
    by (cases "collect_clips E self w scenes clip_paths")
  from generate_isolated(1,3)[OF assms g] collect_isolated[OF assms c] g c show ?thesis
    by simp
qed

theorem template_isolation_witness:
  "dumps (heap (snd (generate_clip_for_scene demo_env demo_self demo_world ''a''
      ''Prompt_Input_Node''))) (base_workflow demo_self) = Some demo_template
   \<and> dumps (heap (snd (collect_clips demo_env demo_self demo_world
        [\<lparr>scene_description = ''a'', visual_prompt = ''a''\<rparr>,
         \<lparr>scene_description = ''c'', visual_prompt = ''c''\<rparr>] [])))
       (base_workflow demo_self) = Some demo_template
   \<and> sent_messages (trace (snd (collect_clips demo_env demo_self demo_world
        [\<lparr>scene_description = ''a'', visual_prompt = ''a''\<rparr>,
         \<lparr>scene_description = ''c'', visual_prompt = ''c''\<rparr>] []))) =
     [job_message demo_self
        (JObj [(''3'', JObj [(''inputs'', JObj [(''seed'', JInt 7)]),
                             (''_meta'', JObj [(''title'', JStr ''Sampler'')])]),
               (''6'', JObj [(''inputs'', JObj [(''text'', JStr ''a''),
                                               (''clip'', JArr [JStr ''4'', JInt 1])]),
                             (''_meta'', JObj [(''title'', JStr ''Prompt_Input_Node'')])])]),
      job_message demo_self
        (JObj [(''3'', JObj [(''inputs'', JObj [(''seed'', JInt 7)]),
                             (''_meta'', JObj [(''title'', JStr ''Sampler'')])]),
               (''6'', JObj [(''inputs'', JObj [(''text'', JStr ''c''),
                                               (''clip'', JArr [JStr ''4'', JInt 1])]),
                             (''_meta'', JObj [(''title'', JStr ''Prompt_Input_Node'')])])])]"
proof -
  let ?scenes = "[\<lparr>scene_description = ''a'', visual_prompt = ''a''\<rparr>,
         \<lparr>scene_description = ''c'', visual_prompt = ''c''\<rparr>]"
  have h: "dumps (heap demo_world) (base_workflow demo_self) = Some demo_template"
    by code_simp
  have s: "sent_messages (trace (snd (collect_clips demo_env demo_self demo_world ?scenes []))) =
     [job_message demo_self
        (JObj [(''3'', JObj [(''inputs'', JObj [(''seed'', JInt 7)]),
                             (''_meta'', JObj [(''title'', JStr ''Sampler'')])]),
               (''6'', JObj [(''inputs'', JObj [(''text'', JStr ''a''),
                                               (''clip'', JArr [JStr ''4'', JInt 1])]),
                             (''_meta'', JObj [(''title'', JStr ''Prompt_Input_Node'')])])]),
      job_message demo_self
        (JObj [(''3'', JObj [(''inputs'', JObj [(''seed'', JInt 7)]),
                             (''_meta'', JObj [(''title'', JStr ''Sampler'')])]),
               (''6'', JObj [(''inputs'', JObj [(''text'', JStr ''c''),
                                               (''clip'', JArr [JStr ''4'', JInt 1])]),
                             (''_meta'', JObj [(''title'', JStr ''Prompt_Input_Node'')])])])]"
    by code_simp
  from template_isolation[OF h, of demo_env "''a''" "''Prompt_Input_Node''" ?scenes "[]"]
  have "dumps (heap (snd (generate_clip_for_scene demo_env demo_self demo_world ''a''
      ''Prompt_Input_Node''))) (base_workflow demo_self) = Some demo_template"
    and "dumps (heap (snd (collect_clips demo_env demo_self demo_world ?scenes [])))
       (base_workflow demo_self) = Some demo_template"
    by blast+
  with s show ?thesis by blast
qed


end
